theory Spec2Isabelle
  imports Main
begin

section \<open>Exceptions and event records\<close>

text \<open>
  The Python exceptions that the modelled code can raise or let through. \<open>Exception\<close> is
  the bare \<^verbatim>\<open>raise Exception\<close> of \<^verbatim>\<open>load_dispatcher\<close>; \<open>Fault\<close> stands for whatever
  else an external collaborator (plugin loader, handler) raises, tagged with a text.
  \<open>KeyboardInterrupt\<close> is the one exception here that is not a subclass of Python's
  \<^verbatim>\<open>Exception\<close>.
\<close>

datatype exn =
    KeyboardInterrupt
  | Exception
  | KeyError
  | IndexError
  | ValueError
  | AssertionError
  | RecursionError
  | UnicodeDecodeError
  | HyprIPCError
  | Fault string

definition is_Exception :: "exn \<Rightarrow> bool" where
  "is_Exception e \<longleftrightarrow> e \<noteq> KeyboardInterrupt"

text \<open>\<^verbatim>\<open>class HyprEvent\<close> of \<^verbatim>\<open>hyprevents/event.py\<close>.\<close>

record HyprEvent =
  name :: string
  data :: string

section \<open>The stream reader\<close>

text \<open>
  \<^verbatim>\<open>buf.decode("utf-8")\<close>. What is read from the channel is a list of bytes (Isabelle
  characters are bytes). The decoder is Python's strict one: it accepts the well-formed
  sequences of one to four bytes, without overlong forms, surrogates or code points
  beyond U+10FFFF, and raises \<^verbatim>\<open>UnicodeDecodeError\<close> on everything else. The decoded
  text is represented by its bytes: in UTF-8 the bytes of \<^verbatim>\<open>>\<close> and of the newline occur only
  as these characters, and a text is empty exactly if its encoding is, so the regular
  expression splits the text where the model splits the bytes.
\<close>

definition byte :: "char \<Rightarrow> nat" where
  "byte c = of_char c"

definition between :: "nat \<Rightarrow> nat \<Rightarrow> char \<Rightarrow> bool" where
  "between lo hi c \<longleftrightarrow> lo \<le> byte c \<and> byte c \<le> hi"

fun utf8_valid :: "string \<Rightarrow> bool" where
  "utf8_valid [] \<longleftrightarrow> True"
| "utf8_valid (c # cs) \<longleftrightarrow>
     (if byte c < 0x80 then utf8_valid cs
      else if between 0xC2 0xDF c then
        (case cs of
           c1 # rest \<Rightarrow> between 0x80 0xBF c1 \<and> utf8_valid rest
         | _ \<Rightarrow> False)
      else if between 0xE0 0xEF c then
        (case cs of
           c1 # c2 # rest \<Rightarrow>
             between (if byte c = 0xE0 then 0xA0 else 0x80)
                     (if byte c = 0xED then 0x9F else 0xBF) c1 \<and>
             between 0x80 0xBF c2 \<and> utf8_valid rest
         | _ \<Rightarrow> False)
      else if between 0xF0 0xF4 c then
        (case cs of
           c1 # c2 # c3 # rest \<Rightarrow>
             between (if byte c = 0xF0 then 0x90 else 0x80)
                     (if byte c = 0xF4 then 0x8F else 0xBF) c1 \<and>
             between 0x80 0xBF c2 \<and> between 0x80 0xBF c3 \<and> utf8_valid rest
         | _ \<Rightarrow> False)
      else False)"

definition decode_utf8 :: "string \<Rightarrow> exn + string" where
  "decode_utf8 buf = (if utf8_valid buf then Inr buf else Inl UnicodeDecodeError)"

text \<open>
  \<^verbatim>\<open>self.regex1 = re.compile(r"(.+)>>(.+)")\<close> and \<^verbatim>\<open>self.regex1.search(line)\<close>.

  Python's \<^verbatim>\<open>.\<close> matches every character but the newline. Both groups are greedy:
  \<open>group1_backtrack s n\<close> is the backtracking of the first group at the start of \<open>s\<close>,
  from \<open>n\<close> characters down to one; after a first group of \<open>n\<close> characters the literal
  \<^verbatim>\<open>>>\<close> must follow and the second group takes every character up to the next newline,
  at least one. \<open>regex1_search\<close> tries the start positions from left to right.
\<close>

definition newline :: char where
  "newline = CHR 0x0A"

definition dot :: "char \<Rightarrow> bool" where
  "dot c \<longleftrightarrow> c \<noteq> newline"

fun group1_backtrack :: "string \<Rightarrow> nat \<Rightarrow> (string \<times> string) option" where
  "group1_backtrack s 0 = None"
| "group1_backtrack s (Suc n) =
     (if take 2 (drop (Suc n) s) = ''>>'' \<and> takeWhile dot (drop (Suc n + 2) s) \<noteq> []
      then Some (take (Suc n) s, takeWhile dot (drop (Suc n + 2) s))
      else group1_backtrack s n)"

definition regex1_match :: "string \<Rightarrow> (string \<times> string) option" where
  "regex1_match s = group1_backtrack s (length (takeWhile dot s))"

fun regex1_search :: "string \<Rightarrow> (string \<times> string) option" where
  "regex1_search [] = None"
| "regex1_search (c # cs) =
     (case regex1_match (c # cs) of
        Some g \<Rightarrow> Some g
      | None \<Rightarrow> regex1_search cs)"

text \<open>
  What \<^verbatim>\<open>self.eventsock.recv(1)\<close> gives: one byte, or the operator's interrupt arriving
  while the read blocks. The channel is the list of what the successive calls give; at
  its end no byte ever arrives and the read does not return.
\<close>

datatype recv = Recv char | Interrupted

text \<open>
  The \<^verbatim>\<open>while True\<close> loop of \<^verbatim>\<open>get_next_event\<close>, with its buffer. \<open>None\<close>: the loop never
  ends.
\<close>

fun read_raw :: "string \<Rightarrow> recv list \<Rightarrow> ((exn + string) \<times> recv list) option" where
  "read_raw buf [] = None"
| "read_raw buf (Interrupted # sock) = Some (Inl KeyboardInterrupt, sock)"
| "read_raw buf (Recv c # sock) =
     (if c = newline then Some (Inr buf, sock) else read_raw (buf @ [c]) sock)"

text \<open>
  \<^verbatim>\<open>EventHandler.get_next_event\<close>: the raw line, its decoding, then the search;
  \<open>Inr None\<close> is the \<^verbatim>\<open>return None\<close> of a line that the expression does not match.
\<close>

definition get_next_event ::
  "recv list \<Rightarrow> ((exn + HyprEvent option) \<times> recv list) option" where
  "get_next_event sock =
     (case read_raw [] sock of
        None \<Rightarrow> None
      | Some (Inl e, sock') \<Rightarrow> Some (Inl e, sock')
      | Some (Inr buf, sock') \<Rightarrow>
          (case decode_utf8 buf of
             Inl e \<Rightarrow> Some (Inl e, sock')
           | Inr line \<Rightarrow>
               (case regex1_search line of
                  None \<Rightarrow> Some (Inr None, sock')
                | Some (eventname, eventdata) \<Rightarrow>
                    Some (Inr (Some \<lparr>name = eventname, data = eventdata\<rparr>), sock'))))"

text \<open>A line contains the token \<^verbatim>\<open>>>\<close>: two adjacent \<^verbatim>\<open>>\<close> somewhere in it.\<close>

fun contains_sep :: "string \<Rightarrow> bool" where
  "contains_sep (a # b # cs) \<longleftrightarrow> (a = CHR ''>'' \<and> b = CHR ''>'') \<or> contains_sep (b # cs)"
| "contains_sep _ \<longleftrightarrow> False"

section \<open>The dispatch engine\<close>

text \<open>
  The configuration file as \<^verbatim>\<open>toml.load\<close> returns it: a dictionary of sections. The
  engine reads two keys, \<^verbatim>\<open>loaded\<close> (of the section \<^verbatim>\<open>general\<close>) and \<^verbatim>\<open>subscribes\<close>, each a
  list of strings; a key that a section does not have is \<open>None\<close>. The keys of the
  handlers are the extension of the record.
\<close>

record toml_section =
  loaded :: "string list option"
  subscribes :: "string list option"

text \<open>
  \<^verbatim>\<open>class EventHandler\<close>: \<^verbatim>\<open>self.config\<close>, \<^verbatim>\<open>self.dispatchers\<close> (event name to the list of
  subscribed handlers) and \<^verbatim>\<open>self.handlers\<close> (module name to handler). A handler \<open>'h\<close> is
  an object reference: \<^verbatim>\<open>list.remove\<close> compares handlers by identity.
\<close>

record ('h, 'c) EventHandler =
  config :: "string \<rightharpoonup> 'c toml_section_scheme"
  dispatchers :: "string \<rightharpoonup> 'h list"
  handlers :: "string \<rightharpoonup> 'h"

text \<open>
  A loaded plugin module: its \<^verbatim>\<open>__name__\<close> (which a plugin may reassign, as
  \<^verbatim>\<open>workspaceswap.py\<close> does) and its \<^verbatim>\<open>handler\<close> object.
\<close>

record 'h module =
  mod_name :: string
  mod_handler :: 'h

text \<open>
  The collaborators of the engine. Their code is not the engine's, so they are taken as
  parameters acting on a world \<open>'w\<close> (the state of the handler objects and of everything
  outside): \<^verbatim>\<open>load_plugin_as_module\<close>, which executes the plugin's file, and the methods
  \<^verbatim>\<open>load_config\<close> and \<^verbatim>\<open>handle_event\<close> of the abstract class \<^verbatim>\<open>Dispatcher\<close>. Each may
  raise, after having changed the world.
\<close>

record ('h, 'c, 'w) Dispatcher =
  load_plugin_as_module :: "string \<Rightarrow> 'w \<Rightarrow> (exn + 'h module) \<times> 'w"
  load_config :: "'h \<Rightarrow> 'c toml_section_scheme \<Rightarrow> 'w \<Rightarrow> exn option \<times> 'w"
  handle_event :: "'h \<Rightarrow> HyprEvent \<Rightarrow> 'w \<Rightarrow> exn option \<times> 'w"

text \<open>
  The subscription loop of \<^verbatim>\<open>load_dispatcher\<close>:
  \<^verbatim>\<open>if event in self.dispatchers: self.dispatchers[event].append(handler)\<close>
  \<^verbatim>\<open>else: self.dispatchers[event] = [handler]\<close>.
\<close>

fun subscribe :: "'h \<Rightarrow> string list \<Rightarrow> (string \<rightharpoonup> 'h list) \<Rightarrow> (string \<rightharpoonup> 'h list)" where
  "subscribe handler [] d = d"
| "subscribe handler (event # events) d =
     subscribe handler events
       (case d event of
          Some hs \<Rightarrow> d(event \<mapsto> hs @ [handler])
        | None \<Rightarrow> d(event \<mapsto> [handler]))"

text \<open>
  \<^verbatim>\<open>EventHandler.load_dispatcher\<close>. The result is the exception raised, if any, with the
  engine and the world as they are left. The handler enters \<^verbatim>\<open>self.handlers\<close> under the
  module's name before the configuration section is looked up under \<^verbatim>\<open>dispname\<close>.
\<close>

definition load_dispatcher ::
  "('h, 'c, 'w) Dispatcher \<Rightarrow> string \<Rightarrow> ('h, 'c) EventHandler \<Rightarrow> 'w
     \<Rightarrow> exn option \<times> ('h, 'c) EventHandler \<times> 'w" where
  "load_dispatcher D dispname self w =
     (case load_plugin_as_module D dispname w of
        (Inl e, w1) \<Rightarrow> (Some e, self, w1)
      | (Inr module, w1) \<Rightarrow>
          (let handler = mod_handler module;
               self1 = self\<lparr>handlers := (handlers self)(mod_name module \<mapsto> handler)\<rparr>
           in case config self1 dispname of
                None \<Rightarrow> (Some Exception, self1, w1)
              | Some mod_config \<Rightarrow>
                  (case load_config D handler mod_config w1 of
                     (Some e, w2) \<Rightarrow> (Some e, self1, w2)
                   | (None, w2) \<Rightarrow>
                       (case config self1 (mod_name module) of
                          None \<Rightarrow> (Some KeyError, self1, w2)
                        | Some sec \<Rightarrow>
                            (case subscribes sec of
                               None \<Rightarrow> (Some KeyError, self1, w2)
                             | Some events \<Rightarrow>
                                 (None,
                                  self1\<lparr>dispatchers := subscribe handler events (dispatchers self1)\<rparr>,
                                  w2))))))"

text \<open>
  The loop of \<^verbatim>\<open>load_all_dispatchers\<close>: \<^verbatim>\<open>try: self.load_dispatcher(dispname)\<close>
  \<^verbatim>\<open>except Exception: continue\<close>. What is not an \<^verbatim>\<open>Exception\<close> goes through.
\<close>

fun load_each ::
  "('h, 'c, 'w) Dispatcher \<Rightarrow> string list \<Rightarrow> ('h, 'c) EventHandler \<Rightarrow> 'w
     \<Rightarrow> exn option \<times> ('h, 'c) EventHandler \<times> 'w" where
  "load_each D [] self w = (None, self, w)"
| "load_each D (dispname # rest) self w =
     (case load_dispatcher D dispname self w of
        (Some e, self', w') \<Rightarrow>
          if is_Exception e then load_each D rest self' w' else (Some e, self', w')
      | (None, self', w') \<Rightarrow> load_each D rest self' w')"

definition load_all_dispatchers ::
  "('h, 'c, 'w) Dispatcher \<Rightarrow> ('h, 'c) EventHandler \<Rightarrow> 'w
     \<Rightarrow> exn option \<times> ('h, 'c) EventHandler \<times> 'w" where
  "load_all_dispatchers D self w =
     (case config self ''general'' of
        None \<Rightarrow> (Some KeyError, self, w)
      | Some general \<Rightarrow>
          (case loaded general of
             None \<Rightarrow> (Some KeyError, self, w)
           | Some names \<Rightarrow> load_each D names self w))"



text \<open>\<^verbatim>\<open>EventHandler.reload_dispatcher_config\<close>.\<close>

definition reload_dispatcher_config ::
  "('h, 'c, 'w) Dispatcher \<Rightarrow> string \<Rightarrow> ('h, 'c) EventHandler \<Rightarrow> 'w \<Rightarrow> exn option \<times> 'w" where
  "reload_dispatcher_config D dispname self w =
     (case config self dispname of
        None \<Rightarrow> (Some KeyError, w)
      | Some disp_config \<Rightarrow>
          (case handlers self dispname of
             None \<Rightarrow> (Some KeyError, w)
           | Some dispatcher \<Rightarrow> load_config D dispatcher disp_config w))"

text \<open>
  The loop of \<^verbatim>\<open>dispatch_event\<close>. Besides the exception and the world it returns the
  handlers whose \<^verbatim>\<open>handle_event\<close> it called, in the order of the calls.
\<close>

fun invoke_all ::
  "('h, 'c, 'w) Dispatcher \<Rightarrow> HyprEvent \<Rightarrow> 'h list \<Rightarrow> 'w \<Rightarrow> exn option \<times> 'w \<times> 'h list" where
  "invoke_all D event [] w = (None, w, [])"
| "invoke_all D event (dispatcher # rest) w =
     (case handle_event D dispatcher event w of
        (Some e, w') \<Rightarrow> (Some e, w', [dispatcher])
      | (None, w') \<Rightarrow>
          (case invoke_all D event rest w' of
             (r, w'', called) \<Rightarrow> (r, w'', dispatcher # called)))"

text \<open>\<^verbatim>\<open>EventHandler.dispatch_event\<close>.\<close>

definition dispatch_event ::
  "('h, 'c, 'w) Dispatcher \<Rightarrow> ('h, 'c) EventHandler \<Rightarrow> HyprEvent \<Rightarrow> 'w
     \<Rightarrow> exn option \<times> 'w \<times> 'h list" where
  "dispatch_event D self event w =
     (case dispatchers self (name event) of
        None \<Rightarrow> (None, w, [])
      | Some ds \<Rightarrow> invoke_all D event ds w)"

text \<open>
  The world after the handlers \<open>hs\<close> have handled an event one after the other, and the
  condition that each of them returns (raises nothing) in the world in which its turn
  comes.
\<close>

definition world_after :: "('h, 'c, 'w) Dispatcher \<Rightarrow> HyprEvent \<Rightarrow> 'h list \<Rightarrow> 'w \<Rightarrow> 'w" where
  "world_after D event hs w = foldl (\<lambda>w h. snd (handle_event D h event w)) w hs"

definition all_return :: "('h, 'c, 'w) Dispatcher \<Rightarrow> HyprEvent \<Rightarrow> 'h list \<Rightarrow> 'w \<Rightarrow> bool" where
  "all_return D event hs w \<longleftrightarrow>
     (\<forall>i < length hs. fst (handle_event D (hs ! i) event (world_after D event (take i hs) w)) = None)"

text \<open>
  How \<^verbatim>\<open>mainloop\<close> ends: it returns after the interrupt and the teardown, an exception
  leaves it, or it waits for ever for a byte that never comes.
\<close>

datatype ending = Returned | Raised exn | Blocked

text \<open>
  \<^verbatim>\<open>EventHandler.mainloop\<close>, with the world it leaves and the calls of \<^verbatim>\<open>handle_event\<close>
  it made. \<^verbatim>\<open>except KeyboardInterrupt\<close> clears \<^verbatim>\<open>self.running\<close>, which ends the loop; any
  other exception leaves the loop and the function.
\<close>

function mainloop ::
  "('h, 'c, 'w) Dispatcher \<Rightarrow> ('h, 'c) EventHandler \<Rightarrow> recv list \<Rightarrow> 'w
     \<Rightarrow> ending \<times> 'w \<times> ('h \<times> HyprEvent) list" where
  "mainloop D self sock w =
     (case get_next_event sock of
        None \<Rightarrow> (Blocked, w, [])
      | Some (Inl e, sock') \<Rightarrow>
          if e = KeyboardInterrupt then (Returned, w, []) else (Raised e, w, [])
      | Some (Inr None, sock') \<Rightarrow> mainloop D self sock' w
      | Some (Inr (Some event), sock') \<Rightarrow>
          (case dispatch_event D self event w of
             (Some e, w', called) \<Rightarrow>
               (if e = KeyboardInterrupt then Returned else Raised e, w',
                map (\<lambda>h. (h, event)) called)
           | (None, w', called) \<Rightarrow>
               (case mainloop D self sock' w' of
                  (r, w'', calls) \<Rightarrow> (r, w'', map (\<lambda>h. (h, event)) called @ calls))))"
  by pat_completeness auto
termination
proof -
  have shorter: "length sock' < length sock"
    if "read_raw buf sock = Some (r, sock')" for buf sock r sock'
    using that by (induction buf sock rule: read_raw.induct) (auto split: if_splits)
  have next_shorter: "length sock' < length sock"
    if "get_next_event sock = Some (r, sock')" for sock r sock'
    using that shorter
    by (fastforce simp: get_next_event_def split: option.splits sum.splits prod.splits)
  show ?thesis
    by (relation "measure (\<lambda>(D, self, sock, w). length sock)") (auto dest: next_shorter)
qed

declare mainloop.simps [simp del]

section \<open>The workspace-swap tracker\<close>

text \<open>
  \<^verbatim>\<open>class Monitor\<close> of \<^verbatim>\<open>dispatchers/workspaceswap.py\<close>; \<open>mon_name\<close> and \<open>mon_id\<close> are its
  attributes \<^verbatim>\<open>name\<close> and \<^verbatim>\<open>id\<close>. A workspace that is not set is \<open>None\<close>.
\<close>

record Monitor =
  mon_name :: string
  mon_id :: int
  curr_wkspc :: "int option"
  prev_wkspc :: "int option"

text \<open>\<^verbatim>\<open>Monitor.__init__(self, name, id, wkspc=None)\<close>.\<close>

definition Monitor_init :: "string \<Rightarrow> int \<Rightarrow> int option \<Rightarrow> Monitor" where
  "Monitor_init monname monid wkspc =
     \<lparr>mon_name = monname, mon_id = monid, curr_wkspc = wkspc, prev_wkspc = None\<rparr>"

text \<open>
  \<^verbatim>\<open>Monitor.set_curr_wkspc\<close>, called with a workspace id (an integer). The record is
  returned as the method leaves it, with the \<^verbatim>\<open>AssertionError\<close> when the final
  \<^verbatim>\<open>assert self.curr_wkspc != self.prev_wkspc\<close> fails.
\<close>

definition set_curr_wkspc :: "int \<Rightarrow> Monitor \<Rightarrow> exn option \<times> Monitor" where
  "set_curr_wkspc wkspc self =
     (let self' = (if curr_wkspc self \<noteq> Some wkspc
                   then self\<lparr>prev_wkspc := curr_wkspc self, curr_wkspc := Some wkspc\<rparr>
                   else self)
      in (if curr_wkspc self' \<noteq> prev_wkspc self' then None else Some AssertionError, self'))"

text \<open>
  The history of a monitor is in order when its current and its previous workspace
  differ, unless neither is set.
\<close>

definition history_ok :: "Monitor \<Rightarrow> bool" where
  "history_ok m \<longleftrightarrow> (curr_wkspc m = prev_wkspc m \<longrightarrow> curr_wkspc m = None)"

text \<open>A sequence of assignments to one monitor, stopping at the first exception.\<close>

fun assign_all :: "int list \<Rightarrow> Monitor \<Rightarrow> exn option \<times> Monitor" where
  "assign_all [] m = (None, m)"
| "assign_all (wkspc # rest) m =
     (case set_curr_wkspc wkspc m of
        (Some e, m') \<Rightarrow> (Some e, m')
      | (None, m') \<Rightarrow> assign_all rest m')"

text \<open>
  The command gateway \<^verbatim>\<open>eventhandler.send_hyprland_cmd\<close> as the tracker uses it. An
  answer is the decoded JSON, or the exception that the call or the reading of a
  malformed answer raises. \<open>moninfo\<close> is one entry of the answer to \<^verbatim>\<open>monitors\<close> with the
  keys read from it (\<^verbatim>\<open>name\<close>, \<^verbatim>\<open>id\<close>, \<^verbatim>\<open>activeWorkspace.id\<close>), \<open>activews\<close> the answer to
  \<^verbatim>\<open>activeworkspace\<close> (\<^verbatim>\<open>monitor\<close>, \<^verbatim>\<open>monitorID\<close>, \<^verbatim>\<open>id\<close>). \<open>cmd_focus\<close> is the outcome
  of \<^verbatim>\<open>dispatch focusworkspaceoncurrentmonitor N\<close>. One record holds the answers during
  the handling of one event: the window manager does not change meanwhile.
\<close>

record moninfo =
  mi_name :: string
  mi_id :: int
  mi_activeWorkspace_id :: int

record activews =
  aw_monitor :: string
  aw_monitorID :: int
  aw_id :: int

record gateway =
  cmd_monitors :: "exn + moninfo list"
  cmd_activeworkspace :: "exn + activews"
  cmd_focus :: "int \<Rightarrow> exn option"

text \<open>The commands that the tracker sends to change the window manager's state.\<close>

datatype cmd = FocusWorkspaceOnCurrentMonitor int

text \<open>
  \<^verbatim>\<open>class WorkspaceSwap\<close>. Its \<^verbatim>\<open>Monitor\<close> objects are mutable and shared, so they live in
  a store: \<open>heap\<close> is the list of the objects created so far and a reference is an index
  into it. \<open>monitors\<close> is the dictionary \<^verbatim>\<open>self.monitors\<close> in insertion order (which
  \<^verbatim>\<open>find_wkspc_mon\<close> follows), from monitor name to reference; \<open>currentmon\<close> is the
  reference \<^verbatim>\<open>self.currentmon\<close>. \<open>triggerdata\<close> is the compiled pattern: what
  \<^verbatim>\<open>self.triggerdata.search(text)\<close> captures in its first group, if it matches.
\<close>

record WorkspaceSwap =
  heap :: "Monitor list"
  monitors :: "(string \<times> nat) list"
  currentmon :: nat
  triggerdata :: "string \<Rightarrow> string option"

text \<open>Every reference of the tracker denotes an object.\<close>

definition refs_ok :: "WorkspaceSwap \<Rightarrow> bool" where
  "refs_ok self \<longleftrightarrow>
     currentmon self < length (heap self) \<and> (\<forall>r \<in> snd ` set (monitors self). r < length (heap self))"

text \<open>
  The tracker as \<^verbatim>\<open>load_config\<close> leaves it: \<^verbatim>\<open>self.currentmon\<close> is object 0 and no entry
  of \<^verbatim>\<open>self.monitors\<close> refers to that object.
\<close>

definition detached :: "WorkspaceSwap \<Rightarrow> bool" where
  "detached self \<longleftrightarrow>
     currentmon self = 0 \<and> heap self \<noteq> [] \<and>
     (\<forall>(k, r) \<in> set (monitors self). 0 < r \<and> r < length (heap self))"

text \<open>
  \<^verbatim>\<open>d[k] = v\<close> on a dictionary kept in insertion order: an existing key keeps its place.
\<close>

fun dict_set :: "'k \<Rightarrow> 'v \<Rightarrow> ('k \<times> 'v) list \<Rightarrow> ('k \<times> 'v) list" where
  "dict_set k v [] = [(k, v)]"
| "dict_set k v ((k', v') # d) = (if k' = k then (k, v) # d else (k', v') # dict_set k v d)"

text \<open>
  \<^verbatim>\<open>WorkspaceSwap.load_config\<close> on the new instance. \<open>data_regex\<close> is the compiled
  \<^verbatim>\<open>config["swap-ev"]["data"]\<close>, \<open>None\<close> when the key is missing. \<^verbatim>\<open>self.currentmon\<close> is a
  \<^verbatim>\<open>Monitor\<close> object of its own, built from the answer to \<^verbatim>\<open>activeworkspace\<close>; the loop
  then builds one object for each entry of the answer to \<^verbatim>\<open>monitors\<close>.
\<close>

definition new_monitor :: "moninfo \<Rightarrow> WorkspaceSwap \<Rightarrow> WorkspaceSwap" where
  "new_monitor mon self =
     self\<lparr>heap := heap self @
              [Monitor_init (mi_name mon) (mi_id mon) (Some (mi_activeWorkspace_id mon))],
          monitors := dict_set (mi_name mon) (length (heap self)) (monitors self)\<rparr>"

definition WorkspaceSwap_load_config ::
  "(string \<Rightarrow> string option) option \<Rightarrow> gateway \<Rightarrow> exn + WorkspaceSwap" where
  "WorkspaceSwap_load_config data_regex gw =
     (case data_regex of
        None \<Rightarrow> Inl KeyError
      | Some compiled \<Rightarrow>
          (case cmd_activeworkspace gw of
             Inl e \<Rightarrow> Inl e
           | Inr activews \<Rightarrow>
               (case cmd_monitors gw of
                  Inl e \<Rightarrow> Inl e
                | Inr allmonitorinfo \<Rightarrow>
                    Inr (fold new_monitor allmonitorinfo
                          \<lparr>heap = [Monitor_init (aw_monitor activews) (aw_monitorID activews)
                                     (Some (aw_id activews))],
                           monitors = [],
                           currentmon = 0,
                           triggerdata = compiled\<rparr>))))"

text \<open>\<^verbatim>\<open>monitor.set_curr_wkspc(wkspc)\<close> on the object behind a reference.\<close>

definition set_curr_wkspc_at ::
  "nat \<Rightarrow> int \<Rightarrow> WorkspaceSwap \<Rightarrow> exn option \<times> WorkspaceSwap" where
  "set_curr_wkspc_at r wkspc self =
     (case set_curr_wkspc wkspc (heap self ! r) of
        (res, m) \<Rightarrow> (res, self\<lparr>heap := (heap self)[r := m]\<rparr>))"

text \<open>The loop of \<^verbatim>\<open>update_monitor_info\<close> over the answer to \<^verbatim>\<open>monitors\<close>.\<close>

fun sync_monitors :: "moninfo list \<Rightarrow> WorkspaceSwap \<Rightarrow> exn option \<times> WorkspaceSwap" where
  "sync_monitors [] self = (None, self)"
| "sync_monitors (mon # rest) self =
     (case map_of (monitors self) (mi_name mon) of
        Some monitor \<Rightarrow>
          (case set_curr_wkspc_at monitor (mi_activeWorkspace_id mon) self of
             (Some e, self') \<Rightarrow> (Some e, self')
           | (None, self') \<Rightarrow> sync_monitors rest self')
      | None \<Rightarrow> sync_monitors rest (new_monitor mon self))"

text \<open>
  \<^verbatim>\<open>WorkspaceSwap.update_monitor_info\<close>. After the loop it writes the name and the id of
  the active monitor into the object that \<^verbatim>\<open>self.currentmon\<close> refers to, and assigns the
  active workspace to it.
\<close>

definition update_monitor_info :: "gateway \<Rightarrow> WorkspaceSwap \<Rightarrow> exn option \<times> WorkspaceSwap" where
  "update_monitor_info gw self =
     (case cmd_monitors gw of
        Inl e \<Rightarrow> (Some e, self)
      | Inr moninfo \<Rightarrow>
          (case sync_monitors moninfo self of
             (Some e, self1) \<Rightarrow> (Some e, self1)
           | (None, self1) \<Rightarrow>
               (case cmd_activeworkspace gw of
                  Inl e \<Rightarrow> (Some e, self1)
                | Inr activews \<Rightarrow>
                    (let r = currentmon self1;
                         self2 = self1\<lparr>heap := (heap self1)
                                   [r := (heap self1 ! r)\<lparr>mon_name := aw_monitor activews,
                                                          mon_id := aw_monitorID activews\<rparr>]\<rparr>
                     in set_curr_wkspc_at r (aw_id activews) self2))))"

text \<open>
  \<^verbatim>\<open>WorkspaceSwap.find_wkspc_mon\<close>: the first object of \<^verbatim>\<open>self.monitors.values()\<close> whose
  current (or, with \<^verbatim>\<open>prev\<close>, previous) workspace is \<^verbatim>\<open>wkspcid\<close>.
\<close>

definition find_wkspc_mon :: "WorkspaceSwap \<Rightarrow> int \<Rightarrow> bool \<Rightarrow> nat option" where
  "find_wkspc_mon self wkspcid prev =
     find (\<lambda>mon. if prev then prev_wkspc (heap self ! mon) = Some wkspcid
                 else curr_wkspc (heap self ! mon) = Some wkspcid)
          (map snd (monitors self))"

text \<open>\<^verbatim>\<open>WorkspaceSwap.focus_workspace_on_current_mon\<close>: one command to the gateway.\<close>

definition focus_workspace_on_current_mon ::
  "gateway \<Rightarrow> int \<Rightarrow> WorkspaceSwap \<Rightarrow> exn option \<times> WorkspaceSwap \<times> cmd list" where
  "focus_workspace_on_current_mon gw wkspcid self =
     (cmd_focus gw wkspcid, self, [FocusWorkspaceOnCurrentMonitor wkspcid])"

text \<open>
  The test of \<^verbatim>\<open>do_workspace_change\<close>:
  \<^verbatim>\<open>othermon is not None and othermon.name == self.currentmon.name\<close>.
\<close>

definition on_current_mon :: "WorkspaceSwap \<Rightarrow> nat option \<Rightarrow> bool" where
  "on_current_mon self othermon \<longleftrightarrow>
     (case othermon of
        None \<Rightarrow> False
      | Some mon \<Rightarrow> mon_name (heap self ! mon) = mon_name (heap self ! currentmon self))"

text \<open>
  \<^verbatim>\<open>WorkspaceSwap.do_workspace_change\<close>, with the commands it sends. The first argument
  is the number of nested calls that the interpreter still allows: Python bounds the
  depth of the recursion and raises \<^verbatim>\<open>RecursionError\<close> beyond it.
\<close>

fun do_workspace_change ::
  "nat \<Rightarrow> gateway \<Rightarrow> int \<Rightarrow> WorkspaceSwap \<Rightarrow> exn option \<times> WorkspaceSwap \<times> cmd list" where
  "do_workspace_change 0 gw wkspcid self = (Some RecursionError, self, [])"
| "do_workspace_change (Suc depth) gw wkspcid self =
     (case update_monitor_info gw self of
        (Some e, self1) \<Rightarrow> (Some e, self1, [])
      | (None, self1) \<Rightarrow>
          (let othermon = find_wkspc_mon self1 wkspcid False
           in if on_current_mon self1 othermon
              then (case prev_wkspc (heap self1 ! currentmon self1) of
                      None \<Rightarrow> (None, self1, [])
                    | Some new_wkspcid \<Rightarrow> do_workspace_change depth gw new_wkspcid self1)
              else focus_workspace_on_current_mon gw wkspcid self1))"

text \<open>
  \<^verbatim>\<open>str.split(",")\<close>, and the two parsers of event data. \<open>to_int\<close> is Python's \<^verbatim>\<open>int\<close> on a
  string, \<open>None\<close> where it raises \<^verbatim>\<open>ValueError\<close>. The elements of the returned tuples are
  evaluated from left to right.
\<close>

fun split_comma :: "string \<Rightarrow> string list" where
  "split_comma [] = [[]]"
| "split_comma (c # cs) =
     (if c = CHR '','' then [] # split_comma cs
      else (case split_comma cs of
              [] \<Rightarrow> [[c]]
            | w # ws \<Rightarrow> (c # w) # ws))"

definition parse_focusedmon_data ::
  "(string \<Rightarrow> int option) \<Rightarrow> string \<Rightarrow> exn + (string \<times> int)" where
  "parse_focusedmon_data to_int d =
     (case split_comma d of
        s0 # s1 # _ \<Rightarrow>
          (case to_int s1 of
             None \<Rightarrow> Inl ValueError
           | Some n \<Rightarrow> Inr (s0, n))
      | _ \<Rightarrow> Inl IndexError)"

definition parse_moveworkspace_data ::
  "(string \<Rightarrow> int option) \<Rightarrow> string \<Rightarrow> exn + (int \<times> string \<times> string)" where
  "parse_moveworkspace_data to_int d =
     (case split_comma d of
        [] \<Rightarrow> Inl IndexError
      | s0 # ss \<Rightarrow>
          (case to_int s0 of
             None \<Rightarrow> Inl ValueError
           | Some n \<Rightarrow>
               (case ss of
                  s1 # s2 # _ \<Rightarrow> Inr (n, s1, s2)
                | _ \<Rightarrow> Inl IndexError)))"

text \<open>
  \<^verbatim>\<open>WorkspaceSwap.handle_event\<close>, with the commands it sends. \<open>depth\<close> is the recursion
  depth left to \<^verbatim>\<open>do_workspace_change\<close> and \<open>gw\<close> the gateway's answers while this event
  is handled.
\<close>

definition WorkspaceSwap_handle_event ::
  "(string \<Rightarrow> int option) \<Rightarrow> nat \<Rightarrow> gateway \<Rightarrow> HyprEvent \<Rightarrow> WorkspaceSwap
     \<Rightarrow> exn option \<times> WorkspaceSwap \<times> cmd list" where
  "WorkspaceSwap_handle_event to_int depth gw event self =
     (if name event = ''focusedmon'' then
        (case parse_focusedmon_data to_int (data event) of
           Inl e \<Rightarrow> (Some e, self, [])
         | Inr (monname, wkspcid) \<Rightarrow>
             (case map_of (monitors self) monname of
                None \<Rightarrow> (Some KeyError, self, [])
              | Some mon \<Rightarrow> (None, self\<lparr>currentmon := mon\<rparr>, [])))
      else if name event = ''workspace'' then
        (case to_int (data event) of
           None \<Rightarrow> (Some ValueError, self, [])
         | Some wkspcid \<Rightarrow>
             (case set_curr_wkspc_at (currentmon self) wkspcid self of
                (res, self') \<Rightarrow> (res, self', [])))
      else if name event = ''moveworkspacev2'' then
        (case parse_moveworkspace_data to_int (data event) of
           Inl e \<Rightarrow> (Some e, self, [])
         | Inr (wkspcid, _, monname) \<Rightarrow>
             (case map_of (monitors self) monname of
                None \<Rightarrow> (Some KeyError, self, [])
              | Some mon \<Rightarrow>
                  (case set_curr_wkspc_at mon wkspcid self of
                     (res, self') \<Rightarrow> (res, self', []))))
      else if name event = ''custom'' then
        (case triggerdata self (data event) of
           None \<Rightarrow> (None, self, [])
         | Some group1 \<Rightarrow>
             (case to_int group1 of
                None \<Rightarrow> (None, self, [])
              | Some new_wkspc \<Rightarrow> do_workspace_change depth gw new_wkspc self))
      else (None, self, []))"

text \<open>
  The tracker fed with a sequence of events, each with the gateway's answers at the time
  it is handled, up to the first exception; the commands sent are collected.
\<close>

fun handle_events ::
  "(string \<Rightarrow> int option) \<Rightarrow> nat \<Rightarrow> (gateway \<times> HyprEvent) list \<Rightarrow> WorkspaceSwap
     \<Rightarrow> exn option \<times> WorkspaceSwap \<times> cmd list" where
  "handle_events to_int depth [] self = (None, self, [])"
| "handle_events to_int depth ((gw, event) # rest) self =
     (case WorkspaceSwap_handle_event to_int depth gw event self of
        (Some e, self', cmds) \<Rightarrow> (Some e, self', cmds)
      | (None, self', cmds) \<Rightarrow>
          (case handle_events to_int depth rest self' of
             (res, self'', cmds') \<Rightarrow> (res, self'', cmds @ cmds')))"

section \<open>Concrete configurations\<close>

text \<open>
  A small engine for the examples. Handlers are numbered objects and the world counts
  the handler objects created so far. \<open>fresh_plugins\<close> executes the plugin's file as
  \<^verbatim>\<open>load_plugin_as_module\<close> does, which creates a new handler object at every load;
  \<open>shared_plugins\<close> is a plugin whose file hands out one and the same object each time.
  The handler numbered 1 faults on every event.
\<close>

definition fresh_plugins :: "(nat, unit, nat) Dispatcher" where
  "fresh_plugins =
     \<lparr>load_plugin_as_module = (\<lambda>dispname w. (Inr \<lparr>mod_name = dispname, mod_handler = w\<rparr>, Suc w)),
      load_config = (\<lambda>h c w. (None, w)),
      handle_event = (\<lambda>h event w. (if h = 1 then Some (Fault ''handler 1'') else None, w))\<rparr>"


text \<open>
  Handlers that leave a mark: the world is the list of the handlers that have handled an
  event so far, and each handler appends its number to it, also the handler numbered 1
  before it faults. \<open>marking_engine\<close> has the handlers 0, 1 and 2 subscribed to \<^verbatim>\<open>X\<close>, the
  handlers 0 and 2 to \<^verbatim>\<open>workspace\<close> and the handler 0 to \<^verbatim>\<open>activewindow\<close>.
\<close>

definition marking_plugins :: "(nat, unit, nat list) Dispatcher" where
  "marking_plugins =
     \<lparr>load_plugin_as_module =
        (\<lambda>dispname w. (Inr \<lparr>mod_name = dispname, mod_handler = length w\<rparr>, w)),
      load_config = (\<lambda>h c w. (None, w)),
      handle_event =
        (\<lambda>h event w. (if h = 1 then Some (Fault ''handler 1'') else None, w @ [h]))\<rparr>"

definition marking_engine :: "(nat, unit) EventHandler" where
  "marking_engine =
     \<lparr>config = Map.empty,
      dispatchers = [''X'' \<mapsto> [0, 1, 2], ''workspace'' \<mapsto> [0, 2], ''activewindow'' \<mapsto> [0]],
      handlers = Map.empty\<rparr>"

text \<open>
  A configuration file that lists the plugins \<^verbatim>\<open>ghost\<close> and \<^verbatim>\<open>workspaceswap\<close> as loaded
  and has a section for the second only.
\<close>

definition example_config :: "string \<rightharpoonup> toml_section" where
  "example_config =
     [''general'' \<mapsto> \<lparr>loaded = Some [''ghost'', ''workspaceswap''], subscribes = None\<rparr>,
      ''workspaceswap'' \<mapsto> \<lparr>loaded = None, subscribes = Some [''workspace'', ''custom'']\<rparr>]"

definition example_engine :: "(nat, unit) EventHandler" where
  "example_engine = \<lparr>config = example_config, dispatchers = Map.empty, handlers = Map.empty\<rparr>"

text \<open>
  The example engine after \<^verbatim>\<open>load_all_dispatchers\<close>, and the outcome of loading the plugin
  \<^verbatim>\<open>workspaceswap\<close> twice and unloading it once: the three exceptions (none, if all goes
  well), the engine and the world.
\<close>

definition engine_after_load :: "(nat, unit) EventHandler" where
  "engine_after_load = fst (snd (load_all_dispatchers fresh_plugins example_engine 0))"


text \<open>
  Two monitors \<^verbatim>\<open>A\<close> and \<^verbatim>\<open>B\<close>. At the start \<^verbatim>\<open>A\<close> has the focus and shows workspace 2,
  \<^verbatim>\<open>B\<close> shows workspace 3; later \<^verbatim>\<open>A\<close> has the focus and shows workspace 5 and \<^verbatim>\<open>B\<close> shows
  workspace 2. The gateway's answers agree with each other in both.
\<close>

definition gw_start :: gateway where
  "gw_start =
     \<lparr>cmd_monitors = Inr [\<lparr>mi_name = ''A'', mi_id = 0, mi_activeWorkspace_id = 2\<rparr>,
                          \<lparr>mi_name = ''B'', mi_id = 1, mi_activeWorkspace_id = 3\<rparr>],
      cmd_activeworkspace = Inr \<lparr>aw_monitor = ''A'', aw_monitorID = 0, aw_id = 2\<rparr>,
      cmd_focus = (\<lambda>wkspcid. None)\<rparr>"

definition gw_later :: gateway where
  "gw_later =
     \<lparr>cmd_monitors = Inr [\<lparr>mi_name = ''A'', mi_id = 0, mi_activeWorkspace_id = 5\<rparr>,
                          \<lparr>mi_name = ''B'', mi_id = 1, mi_activeWorkspace_id = 2\<rparr>],
      cmd_activeworkspace = Inr \<lparr>aw_monitor = ''A'', aw_monitorID = 0, aw_id = 5\<rparr>,
      cmd_focus = (\<lambda>wkspcid. None)\<rparr>"

text \<open>Python's \<^verbatim>\<open>int\<close> on the texts that occur in the examples.\<close>

definition small_int :: "string \<Rightarrow> int option" where
  "small_int = map_of [(''1'', 1), (''2'', 2), (''3'', 3), (''5'', 5)]"

text \<open>
  The tracker after \<^verbatim>\<open>load_config\<close> at the start, with the trigger pattern \<^verbatim>\<open>(.*)\<close>
  (the whole text is the first group): object 0 is \<^verbatim>\<open>self.currentmon\<close>, objects 1 and 2
  are the entries of \<^verbatim>\<open>self.monitors\<close>.
\<close>

definition tracker_start :: WorkspaceSwap where
  "tracker_start =
     \<lparr>heap = [\<lparr>mon_name = ''A'', mon_id = 0, curr_wkspc = Some 2, prev_wkspc = None\<rparr>,
              \<lparr>mon_name = ''A'', mon_id = 0, curr_wkspc = Some 2, prev_wkspc = None\<rparr>,
              \<lparr>mon_name = ''B'', mon_id = 1, curr_wkspc = Some 3, prev_wkspc = None\<rparr>],
      monitors = [(''A'', 1), (''B'', 2)],
      currentmon = 0,
      triggerdata = Some\<rparr>"

text \<open>
  Events as the window manager sends them when the user moves the focus to \<^verbatim>\<open>B\<close>, asks
  there for workspace 5 and moves the focus back to \<^verbatim>\<open>A\<close> before the request is handled
  (so that workspace 5 opens on \<^verbatim>\<open>A\<close>), then switches \<^verbatim>\<open>B\<close> to workspace 2 and returns to
  \<^verbatim>\<open>A\<close>. The gateway is asked only while a \<^verbatim>\<open>custom\<close> event is handled.
\<close>

definition drift_events :: "(gateway \<times> HyprEvent) list" where
  "drift_events =
     [(gw_start, \<lparr>name = ''focusedmon'', data = ''B,3''\<rparr>),
      (gw_start, \<lparr>name = ''custom'', data = ''5''\<rparr>),
      (gw_start, \<lparr>name = ''focusedmon'', data = ''A,2''\<rparr>),
      (gw_later, \<lparr>name = ''workspace'', data = ''5''\<rparr>),
      (gw_later, \<lparr>name = ''focusedmon'', data = ''B,3''\<rparr>),
      (gw_later, \<lparr>name = ''workspace'', data = ''2''\<rparr>),
      (gw_later, \<lparr>name = ''focusedmon'', data = ''A,5''\<rparr>)]"

text \<open>The tracker after these events.\<close>

definition tracker_drifted :: WorkspaceSwap where
  "tracker_drifted =
     \<lparr>heap = [\<lparr>mon_name = ''A'', mon_id = 0, curr_wkspc = Some 2, prev_wkspc = None\<rparr>,
              \<lparr>mon_name = ''A'', mon_id = 0, curr_wkspc = Some 5, prev_wkspc = Some 2\<rparr>,
              \<lparr>mon_name = ''A'', mon_id = 0, curr_wkspc = Some 2, prev_wkspc = Some 3\<rparr>],
      monitors = [(''A'', 1), (''B'', 2)],
      currentmon = 1,
      triggerdata = Some\<rparr>"

text \<open>
  A monitor \<^verbatim>\<open>C\<close> that is unplugged. At the start \<^verbatim>\<open>C\<close> shows workspace 3 and \<^verbatim>\<open>A\<close>, which
  has the focus, shows workspace 1. When \<^verbatim>\<open>C\<close> goes, its workspace moves to \<^verbatim>\<open>A\<close>, which
  the window manager announces by a \<^verbatim>\<open>moveworkspacev2\<close> event; afterwards the gateway lists
  \<^verbatim>\<open>A\<close> only, showing workspace 3. \<open>tracker_docked\<close> is the tracker after \<^verbatim>\<open>load_config\<close> at
  the start and \<open>tracker_undocked\<close> the tracker after the two events.
\<close>

definition gw_docked :: gateway where
  "gw_docked =
     \<lparr>cmd_monitors = Inr [\<lparr>mi_name = ''C'', mi_id = 0, mi_activeWorkspace_id = 3\<rparr>,
                          \<lparr>mi_name = ''A'', mi_id = 1, mi_activeWorkspace_id = 1\<rparr>],
      cmd_activeworkspace = Inr \<lparr>aw_monitor = ''A'', aw_monitorID = 1, aw_id = 1\<rparr>,
      cmd_focus = (\<lambda>wkspcid. None)\<rparr>"

definition gw_undocked :: gateway where
  "gw_undocked =
     \<lparr>cmd_monitors = Inr [\<lparr>mi_name = ''A'', mi_id = 1, mi_activeWorkspace_id = 3\<rparr>],
      cmd_activeworkspace = Inr \<lparr>aw_monitor = ''A'', aw_monitorID = 1, aw_id = 3\<rparr>,
      cmd_focus = (\<lambda>wkspcid. None)\<rparr>"

definition tracker_docked :: WorkspaceSwap where
  "tracker_docked =
     \<lparr>heap = [\<lparr>mon_name = ''A'', mon_id = 1, curr_wkspc = Some 1, prev_wkspc = None\<rparr>,
              \<lparr>mon_name = ''C'', mon_id = 0, curr_wkspc = Some 3, prev_wkspc = None\<rparr>,
              \<lparr>mon_name = ''A'', mon_id = 1, curr_wkspc = Some 1, prev_wkspc = None\<rparr>],
      monitors = [(''C'', 1), (''A'', 2)],
      currentmon = 0,
      triggerdata = Some\<rparr>"

definition undock_events :: "(gateway \<times> HyprEvent) list" where
  "undock_events =
     [(gw_docked, \<lparr>name = ''focusedmon'', data = ''A,1''\<rparr>),
      (gw_undocked, \<lparr>name = ''moveworkspacev2'', data = ''3,3,A''\<rparr>)]"

definition tracker_undocked :: WorkspaceSwap where
  "tracker_undocked =
     \<lparr>heap = [\<lparr>mon_name = ''A'', mon_id = 1, curr_wkspc = Some 1, prev_wkspc = None\<rparr>,
              \<lparr>mon_name = ''C'', mon_id = 0, curr_wkspc = Some 3, prev_wkspc = None\<rparr>,
              \<lparr>mon_name = ''A'', mon_id = 1, curr_wkspc = Some 3, prev_wkspc = Some 1\<rparr>],
      monitors = [(''C'', 1), (''A'', 2)],
      currentmon = 2,
      triggerdata = Some\<rparr>"

text \<open>
  The monitors of the specification's scenarios, \<^verbatim>\<open>DP-1\<close> with the focus and \<^verbatim>\<open>HDMI-1\<close>,
  as a tracker whose \<^verbatim>\<open>self.currentmon\<close> is the entry of \<^verbatim>\<open>DP-1\<close>, and the gateway that
  answers the same.
\<close>

definition scenario_tracker :: "int option \<Rightarrow> WorkspaceSwap" where
  "scenario_tracker prev =
     \<lparr>heap = [\<lparr>mon_name = ''DP-1'', mon_id = 0, curr_wkspc = Some 1, prev_wkspc = prev\<rparr>,
              \<lparr>mon_name = ''HDMI-1'', mon_id = 1, curr_wkspc = Some 3, prev_wkspc = None\<rparr>],
      monitors = [(''DP-1'', 0), (''HDMI-1'', 1)],
      currentmon = 0,
      triggerdata = Some\<rparr>"

definition scenario_gw :: gateway where
  "scenario_gw =
     \<lparr>cmd_monitors = Inr [\<lparr>mi_name = ''DP-1'', mi_id = 0, mi_activeWorkspace_id = 1\<rparr>,
                          \<lparr>mi_name = ''HDMI-1'', mi_id = 1, mi_activeWorkspace_id = 3\<rparr>],
      cmd_activeworkspace = Inr \<lparr>aw_monitor = ''DP-1'', aw_monitorID = 0, aw_id = 1\<rparr>,
      cmd_focus = (\<lambda>wkspcid. None)\<rparr>"

section \<open>Properties of the stream reader\<close>

text \<open>
  A line without a newline is matched whole by a greedy group; the token occurs in a
  line exactly if it stands at some position of it; and the backtracking of the first
  group returns the last position at which the rest of the pattern fits.
\<close>

lemma takeWhile_dot_all: "newline \<notin> set s \<Longrightarrow> takeWhile dot s = s"
  by (induction s) (auto simp: dot_def)

lemma contains_sep_iff: "contains_sep s \<longleftrightarrow> (\<exists>i. take 2 (drop i s) = ''>>'')"
proof (induction s rule: contains_sep.induct)
  fix a :: char and b cs
  assume 1: "contains_sep (b # cs) = (\<exists>i. take 2 (drop i (b # cs)) = ''>>'')"
  show "contains_sep (a # b # cs) = (\<exists>i. take 2 (drop i (a # b # cs)) = ''>>'')"
  proof
    assume "contains_sep (a # b # cs)"
    then consider "a = CHR ''>'' \<and> b = CHR ''>''" | "contains_sep (b # cs)" by auto
    then show "\<exists>i. take 2 (drop i (a # b # cs)) = ''>>''"
    proof cases
      case 1 then have "take 2 (drop 0 (a # b # cs)) = ''>>''" by simp
      then show ?thesis by blast
    next
      case 2
      with 1 obtain i where "take 2 (drop i (b # cs)) = ''>>''" by blast
      then have "take 2 (drop (Suc i) (a # b # cs)) = ''>>''" by simp
      then show ?thesis by blast
    qed
  next
    assume "\<exists>i. take 2 (drop i (a # b # cs)) = ''>>''"
    then obtain i where i: "take 2 (drop i (a # b # cs)) = ''>>''" by blast
    show "contains_sep (a # b # cs)"
    proof (cases i)
      case 0 with i show ?thesis by simp
    next
      case (Suc j)
      with i have "take 2 (drop j (b # cs)) = ''>>''" by simp
      with 1 show ?thesis by auto
    qed
  qed
next
  show "contains_sep [] = (\<exists>i. take 2 (drop i []) = ''>>'')" by simp
next
  fix v :: char
  show "contains_sep [v] = (\<exists>i. take 2 (drop i [v]) = ''>>'')"
  proof -
    have "take 2 (drop i [v]) \<noteq> ''>>''" for i by (cases i) auto
    then show ?thesis by simp
  qed
qed

lemma group1_backtrack_None:
  "\<forall>j. 1 \<le> j \<and> j \<le> n \<longrightarrow>
      \<not> (take 2 (drop j s) = ''>>'' \<and> takeWhile dot (drop (j + 2) s) \<noteq> [])
   \<Longrightarrow> group1_backtrack s n = None"
proof (induction n)
  case 0
  show ?case by simp
next
  case (Suc n)
  from Suc.prems have "\<not> (take 2 (drop (Suc n) s) = ''>>'' \<and> takeWhile dot (drop (Suc n + 2) s) \<noteq> [])"
    by (metis le_refl le_add1 plus_1_eq_Suc)
  moreover from Suc.prems have "group1_backtrack s n = None"
    by (intro Suc.IH) auto
  ultimately show ?case by auto
qed

lemma group1_backtrack_Some:
  assumes "1 \<le> k" "k \<le> n"
    and "take 2 (drop k s) = ''>>''" "takeWhile dot (drop (k + 2) s) \<noteq> []"
    and "\<forall>j. k < j \<and> j \<le> n \<longrightarrow>
      \<not> (take 2 (drop j s) = ''>>'' \<and> takeWhile dot (drop (j + 2) s) \<noteq> [])"
  shows "group1_backtrack s n = Some (take k s, takeWhile dot (drop (k + 2) s))"
  using assms
proof (induction n)
  case 0
  then show ?case by simp
next
  case (Suc n)
  show ?case
  proof (cases "k = Suc n")
    case True
    with Suc.prems show ?thesis by simp
  next
    case False
    with Suc.prems have kn: "k \<le> n" and lt: "k < Suc n" by auto
    from Suc.prems(5) lt
    have no: "\<not> (take 2 (drop (Suc n) s) = ''>>'' \<and> takeWhile dot (drop (Suc n + 2) s) \<noteq> [])"
      by blast
    have "group1_backtrack s n = Some (take k s, takeWhile dot (drop (k + 2) s))"
      using Suc.prems kn by (intro Suc.IH) auto
    with no show ?thesis by auto
  qed
qed

lemma regex1_search_no_sep: "\<not> contains_sep s \<Longrightarrow> regex1_search s = None"
proof (induction s)
  case Nil
  show ?case by simp
next
  case (Cons c cs)
  from Cons.prems have no: "take 2 (drop i (c # cs)) \<noteq> ''>>''" for i
    by (simp add: contains_sep_iff)
  have "regex1_match (c # cs) = None"
    unfolding regex1_match_def by (rule group1_backtrack_None) (simp add: no)
  moreover have "\<not> contains_sep cs"
  proof
    assume "contains_sep cs"
    then obtain i where "take 2 (drop i cs) = ''>>''" by (auto simp: contains_sep_iff)
    then have "take 2 (drop (Suc i) (c # cs)) = ''>>''" by simp
    with no show False by blast
  qed
  ultimately show ?case using Cons.IH by simp
qed

lemma read_raw_line:
  "newline \<notin> set line \<Longrightarrow>
   read_raw buf (map Recv line @ Recv newline # sock) = Some (Inr (buf @ line), sock)"
  by (induction line arbitrary: buf) auto

lemma regex1_search_split:
  assumes nl: "newline \<notin> set (nm @ ''>>'' @ dt)"
    and nm: "nm \<noteq> []" and dt: "dt \<noteq> []"
    and later: "\<not> contains_sep (butlast (CHR ''>'' # dt))"
  shows "regex1_search (nm @ ''>>'' @ dt) = Some (nm, dt)"
proof -
  let ?s = "nm @ ''>>'' @ dt"
  let ?k = "length nm"
  have tw: "takeWhile dot (drop j ?s) = drop j ?s" for j
    using nl by (intro takeWhile_dot_all) (auto dest: in_set_dropD)
  have all: "takeWhile dot ?s = ?s" using nl by (rule takeWhile_dot_all)
  have k1: "1 \<le> ?k" using nm by (cases nm) auto
  have kn: "?k \<le> length ?s" by simp
  have sep: "take 2 (drop ?k ?s) = ''>>''" by simp
  have d2: "drop (?k + 2) ?s = dt" by simp
  have g2: "takeWhile dot (drop (?k + 2) ?s) \<noteq> []" using dt tw d2 by metis
  have no_later: "\<forall>j. ?k < j \<and> j \<le> length ?s \<longrightarrow>
      \<not> (take 2 (drop j ?s) = ''>>'' \<and> takeWhile dot (drop (j + 2) ?s) \<noteq> [])"
  proof (intro allI impI notI)
    fix j assume j: "?k < j \<and> j \<le> length ?s"
      and v: "take 2 (drop j ?s) = ''>>'' \<and> takeWhile dot (drop (j + 2) ?s) \<noteq> []"
    define t where "t = CHR ''>'' # dt"
    define i where "i = j - ?k - 1"
    have ji: "j = ?k + 1 + i" using j by (simp add: i_def)
    have dj: "drop j ?s = drop i t" unfolding ji t_def by (simp add: drop_Cons')
    have dj2: "drop (j + 2) ?s = drop (i + 2) t" unfolding ji t_def by (simp add: drop_Cons')
    from v have "take 2 (drop j ?s) = ''>>''" by (rule conjunct1)
    then have a: "take 2 (drop i t) = ''>>''" unfolding dj .
    from v have "takeWhile dot (drop (j + 2) ?s) \<noteq> []" by (rule conjunct2)
    then have "takeWhile dot (drop (i + 2) t) \<noteq> []" unfolding dj2 .
    then have "drop (i + 2) t \<noteq> []" by auto
    then have len: "i + 2 < length t" by simp
    have "take 2 (drop i (butlast t)) = take 2 (drop i t)"
      using len by (simp add: butlast_conv_take drop_take take_take min_def)
    with a have "contains_sep (butlast t)" by (auto simp: contains_sep_iff)
    with later show False by (simp add: t_def)
  qed
  have "group1_backtrack ?s (length ?s) = Some (take ?k ?s, takeWhile dot (drop (?k + 2) ?s))"
    using k1 kn sep g2 no_later by (rule group1_backtrack_Some)
  then have m: "regex1_match ?s = Some (nm, dt)"
    unfolding regex1_match_def all using tw[of "?k + 2"] d2 by simp
  obtain c cs where s: "?s = c # cs" using nm by (cases nm) auto
  show ?thesis using m unfolding s by simp
qed

text \<open>
  The byte \<^verbatim>\<open>0xFF\<close> occurs in no UTF-8 text. A line that decodes goes to the search; on a
  line that does not, \<^verbatim>\<open>get_next_event\<close> raises \<^verbatim>\<open>UnicodeDecodeError\<close>.
\<close>

lemma utf8_valid_undecodable: "\<not> utf8_valid [CHR 0xFF]"
  by (simp add: byte_def between_def)

lemma get_next_event_line:
  assumes "newline \<notin> set line" and "utf8_valid line"
  shows "get_next_event (map Recv line @ Recv newline # sock) =
           (case regex1_search line of
              None \<Rightarrow> Some (Inr None, sock)
            | Some (eventname, eventdata) \<Rightarrow>
                Some (Inr (Some \<lparr>name = eventname, data = eventdata\<rparr>), sock))"
  using read_raw_line[OF assms(1), of "[]" sock] assms(2)
  by (simp add: get_next_event_def decode_utf8_def)

lemma get_next_event_undecodable:
  assumes "newline \<notin> set line" and "\<not> utf8_valid line"
  shows "get_next_event (map Recv line @ Recv newline # sock) = Some (Inl UnicodeDecodeError, sock)"
  using read_raw_line[OF assms(1), of "[]" sock] assms(2)
  by (simp add: get_next_event_def decode_utf8_def)

text \<open>
  \<^verbatim>\<open>mainloop\<close>, case by case of what the next read gives: nothing ever, an exception, a
  line without an event, an event whose handlers all return, an event with a handler
  that faults.
\<close>

lemma mainloop_blocked:
  "get_next_event sock = None \<Longrightarrow> mainloop D self sock w = (Blocked, w, [])"
  by (subst mainloop.simps) simp

lemma mainloop_raise:
  "get_next_event sock = Some (Inl e, sock') \<Longrightarrow>
     mainloop D self sock w = (if e = KeyboardInterrupt then Returned else Raised e, w, [])"
  by (subst mainloop.simps) simp

lemma mainloop_skip:
  "get_next_event sock = Some (Inr None, sock') \<Longrightarrow>
     mainloop D self sock w = mainloop D self sock' w"
  by (subst mainloop.simps) simp

lemma mainloop_event:
  "get_next_event sock = Some (Inr (Some event), sock') \<Longrightarrow>
   dispatch_event D self event w = (None, w', called) \<Longrightarrow>
     mainloop D self sock w =
       (case mainloop D self sock' w' of
          (r, w'', calls) \<Rightarrow> (r, w'', map (\<lambda>h. (h, event)) called @ calls))"
  by (subst mainloop.simps) simp

lemma mainloop_event_fault:
  "get_next_event sock = Some (Inr (Some event), sock') \<Longrightarrow>
   dispatch_event D self event w = (Some e, w', called) \<Longrightarrow>
     mainloop D self sock w =
       (if e = KeyboardInterrupt then Returned else Raised e, w', map (\<lambda>h. (h, event)) called)"
  by (subst mainloop.simps) simp

lemma mainloop_interrupted:
  "mainloop D self (Interrupted # sock) w = (Returned, w, [])"
proof -
  have "get_next_event (Interrupted # sock) = Some (Inl KeyboardInterrupt, sock)"
    by (simp add: get_next_event_def)
  from mainloop_raise[OF this] show ?thesis by simp
qed

text \<open>
  A line of UTF-8 text that can be split in one place only, with text on both sides of
  the token, gives the event with the text before the token as name and the text after
  it as data.
\<close>

lemma get_next_event_single_split:
  assumes "newline \<notin> set nm" and "newline \<notin> set dt"
    and "utf8_valid (nm @ ''>>'' @ dt)"
    and "nm \<noteq> []" and "dt \<noteq> []"
    and "\<not> contains_sep (nm @ ''>'')"
    and "\<not> contains_sep (butlast (CHR ''>'' # dt))"
  shows "get_next_event (map Recv (nm @ ''>>'' @ dt) @ Recv newline # sock) =
           Some (Inr (Some \<lparr>name = nm, data = dt\<rparr>), sock)"
proof -
  have nl: "newline \<notin> set (nm @ ''>>'' @ dt)"
    using assms(1,2) by (simp add: newline_def)
  have "regex1_search (nm @ ''>>'' @ dt) = Some (nm, dt)"
    using nl assms(4,5,7) by (rule regex1_search_split)
  then show ?thesis
    using get_next_event_line[OF nl assms(3), of sock] by simp
qed

lemma get_next_event_workspace:
  "get_next_event (map Recv ''workspace>>2'' @ Recv newline # sock) =
     Some (Inr (Some \<lparr>name = ''workspace'', data = ''2''\<rparr>), sock)"
  using get_next_event_single_split[of "''workspace''" "''2''" sock]
  by (simp add: newline_def byte_def)

lemma workspace_dispatched:
  "dispatch_event marking_plugins marking_engine \<lparr>name = ''workspace'', data = ''2''\<rparr> w =
     (None, w @ [0, 2], [0, 2])"
  by (simp add: dispatch_event_def marking_engine_def marking_plugins_def)

text \<open>
  C1 does not hold of the code. The first group of the pattern is greedy, so a line in
  which a second \<^verbatim>\<open>>>\<close> is followed by text is split at that one. The line
  \<^verbatim>\<open>activewindow>>kitty,a>>b\<close>, the event of a window of class \<^verbatim>\<open>kitty\<close> with the title
  \<^verbatim>\<open>a>>b\<close>, gives the name \<^verbatim>\<open>activewindow>>kitty,a\<close> and the data \<^verbatim>\<open>b\<close>, not the name
  \<^verbatim>\<open>activewindow\<close> and the data \<^verbatim>\<open>kitty,a>>b\<close>. Nothing is subscribed to that name: the
  handler subscribed to \<^verbatim>\<open>activewindow\<close> is not called and the event is lost.
\<close>

theorem get_next_event_greedy_split:
  "utf8_valid ''activewindow>>kitty,a>>b'' \<and> contains_sep ''activewindow>>kitty,a>>b'' \<and>
   get_next_event (map Recv ''activewindow>>kitty,a>>b'' @ Recv newline # sock) =
     Some (Inr (Some \<lparr>name = ''activewindow>>kitty,a'', data = ''b''\<rparr>), sock) \<and>
   \<lparr>name = ''activewindow>>kitty,a'', data = ''b''\<rparr> \<noteq>
     \<lparr>name = ''activewindow'', data = ''kitty,a>>b''\<rparr> \<and>
   mainloop marking_plugins marking_engine
     (map Recv ''activewindow>>kitty,a>>b'' @ [Recv newline, Interrupted]) [] = (Returned, [], [])"
proof -
  have v: "utf8_valid ''activewindow>>kitty,a>>b''" by (simp add: byte_def)
  have g: "get_next_event (map Recv ''activewindow>>kitty,a>>b'' @ Recv newline # sock) =
     Some (Inr (Some \<lparr>name = ''activewindow>>kitty,a'', data = ''b''\<rparr>), sock)" for sock
    using get_next_event_line[of "''activewindow>>kitty,a>>b''" sock] v
    by (simp add: regex1_match_def newline_def dot_def)
  have d: "dispatch_event marking_plugins marking_engine
      \<lparr>name = ''activewindow>>kitty,a'', data = ''b''\<rparr> [] = (None, [], [])"
    by (simp add: dispatch_event_def marking_engine_def)
  have "mainloop marking_plugins marking_engine
     (map Recv ''activewindow>>kitty,a>>b'' @ [Recv newline, Interrupted]) [] = (Returned, [], [])"
    using mainloop_event[OF g[of "[Interrupted]"] d] by (simp add: mainloop_interrupted)
  with v g[of sock] show ?thesis by simp
qed

text \<open>The same event with a title without the token reaches the handler.\<close>

lemma title_without_token_dispatched:
  "mainloop marking_plugins marking_engine
     (map Recv ''activewindow>>kitty,ab'' @ [Recv newline, Interrupted]) [] =
     (Returned, [0], [(0, \<lparr>name = ''activewindow'', data = ''kitty,ab''\<rparr>)])"
proof -
  have g: "get_next_event (map Recv ''activewindow>>kitty,ab'' @ [Recv newline, Interrupted]) =
     Some (Inr (Some \<lparr>name = ''activewindow'', data = ''kitty,ab''\<rparr>), [Interrupted])"
    using get_next_event_single_split[of "''activewindow''" "''kitty,ab''" "[Interrupted]"]
    by (simp add: newline_def byte_def)
  have d: "dispatch_event marking_plugins marking_engine
      \<lparr>name = ''activewindow'', data = ''kitty,ab''\<rparr> [] = (None, [0], [0])"
    by (simp add: dispatch_event_def marking_engine_def marking_plugins_def)
  show ?thesis using mainloop_event[OF g d] by (simp add: mainloop_interrupted)
qed

text \<open>
  Both groups need a character: a line with nothing after the token, or nothing before
  it, gives no event although it contains the token.
\<close>

lemma get_next_event_empty_side:
  "get_next_event (map Recv ''configreloaded>>'' @ [Recv newline]) = Some (Inr None, [])"
  "get_next_event (map Recv ''>>2'' @ [Recv newline]) = Some (Inr None, [])"
  by (simp_all add: get_next_event_def decode_utf8_def byte_def regex1_match_def newline_def dot_def)

text \<open>
  A line of UTF-8 text that does not contain \<^verbatim>\<open>>>\<close> gives no event and raises nothing, and
  \<^verbatim>\<open>mainloop\<close> goes on with the next read. So the line \<^verbatim>\<open>garbage\<close> before the line
  \<^verbatim>\<open>workspace>>2\<close> changes nothing: the event is dispatched to its two handlers, which
  leave their marks, and the loop runs until the interrupt.
\<close>

lemma no_separator_line_skipped:
  assumes "newline \<notin> set line" and "utf8_valid line" and "\<not> contains_sep line"
  shows "get_next_event (map Recv line @ Recv newline # sock) = Some (Inr None, sock) \<and>
         mainloop D self (map Recv line @ Recv newline # sock) w = mainloop D self sock w"
proof -
  have g: "get_next_event (map Recv line @ Recv newline # sock) = Some (Inr None, sock)"
    using get_next_event_line[OF assms(1,2), of sock] regex1_search_no_sep[OF assms(3)] by simp
  from mainloop_skip[OF g] g show ?thesis by simp
qed

lemma skipped_line_then_event:
  "mainloop marking_plugins marking_engine
     (map Recv ''garbage'' @ Recv newline # map Recv ''workspace>>2'' @ [Recv newline, Interrupted]) [] =
     (Returned, [0, 2],
      [(0, \<lparr>name = ''workspace'', data = ''2''\<rparr>), (2, \<lparr>name = ''workspace'', data = ''2''\<rparr>)])"
proof -
  have "mainloop marking_plugins marking_engine
      (map Recv ''workspace>>2'' @ [Recv newline, Interrupted]) [] =
     (Returned, [0, 2],
      [(0, \<lparr>name = ''workspace'', data = ''2''\<rparr>), (2, \<lparr>name = ''workspace'', data = ''2''\<rparr>)])"
    using mainloop_event[OF get_next_event_workspace[of "[Interrupted]"] workspace_dispatched[of "[]"]]
    by (simp add: mainloop_interrupted)
  then show ?thesis
    using no_separator_line_skipped[of "''garbage''"
        "map Recv ''workspace>>2'' @ [Recv newline, Interrupted]" marking_plugins marking_engine "[]"]
    by (simp add: newline_def byte_def)
qed

text \<open>
  C9 does not hold of the code. The line that consists of the byte \<^verbatim>\<open>0xFF\<close> does not
  contain \<^verbatim>\<open>>>\<close>. \<^verbatim>\<open>get_next_event\<close> does not return \<^verbatim>\<open>None\<close> for it: \<^verbatim>\<open>buf.decode\<close> raises
  \<^verbatim>\<open>UnicodeDecodeError\<close>, which \<^verbatim>\<open>mainloop\<close> does not catch. The loop ends with this
  exception instead of reading on, and the event \<^verbatim>\<open>workspace>>2\<close> that follows on the
  channel is never dispatched.
\<close>

theorem undecodable_line_raises:
  "\<not> contains_sep [CHR 0xFF] \<and>
   get_next_event (Recv (CHR 0xFF) # Recv newline # sock) = Some (Inl UnicodeDecodeError, sock) \<and>
   mainloop D self (Recv (CHR 0xFF) # Recv newline # sock) w = (Raised UnicodeDecodeError, w, []) \<and>
   mainloop marking_plugins marking_engine
     (Recv (CHR 0xFF) # Recv newline # map Recv ''workspace>>2'' @ [Recv newline, Interrupted]) [] =
     (Raised UnicodeDecodeError, [], [])"
proof -
  have g: "get_next_event (Recv (CHR 0xFF) # Recv newline # sock) =
      Some (Inl UnicodeDecodeError, sock)" for sock
    using get_next_event_undecodable[of "[CHR 0xFF]" sock] utf8_valid_undecodable
    by (simp add: newline_def)
  from g[of sock] mainloop_raise[OF g[of sock], of D self w]
    mainloop_raise[OF g[of "map Recv ''workspace>>2'' @ [Recv newline, Interrupted]"],
      of marking_plugins marking_engine "[]"]
  show ?thesis by simp
qed

section \<open>Properties of the dispatch engine\<close>

lemma invoke_all_called:
  "invoke_all D event ds w = (r, w', called) \<Longrightarrow>
     take (length called) ds = called \<and> (r = None \<longrightarrow> called = ds) \<and> (r \<noteq> None \<longrightarrow> called \<noteq> [])"
proof (induction ds arbitrary: w r w' called)
  case Nil
  then show ?case by simp
next
  case (Cons d ds)
  obtain r1 w1 where h: "handle_event D d event w = (r1, w1)" by (cases "handle_event D d event w")
  show ?case
  proof (cases r1)
    case None
    obtain r2 w2 c2 where i: "invoke_all D event ds w1 = (r2, w2, c2)"
      by (cases "invoke_all D event ds w1")
    from Cons.prems h None i have "r = r2" "called = d # c2" by simp_all
    with Cons.IH[OF i] show ?thesis by simp
  next
    case (Some e)
    with Cons.prems h show ?thesis by auto
  qed
qed

lemma invoke_all_append:
  "invoke_all D event pre w = (None, w1, called) \<Longrightarrow>
     invoke_all D event (pre @ rest) w =
       (case invoke_all D event rest w1 of (r, w2, c) \<Rightarrow> (r, w2, pre @ c))"
proof (induction pre arbitrary: w called)
  case Nil
  then show ?case by simp
next
  case (Cons d pre)
  obtain r1 w' where h: "handle_event D d event w = (r1, w')" by (cases "handle_event D d event w")
  obtain r2 w2 c2 where i: "invoke_all D event pre w' = (r2, w2, c2)"
    by (cases "invoke_all D event pre w'")
  from Cons.prems h i have r1: "r1 = None" by (cases r1) auto
  from Cons.prems h i r1 have "r2 = None" "w2 = w1" by simp_all
  with i have "invoke_all D event pre w' = (None, w1, c2)" by simp
  from Cons.IH[OF this] h r1 show ?case by (simp split: prod.splits)
qed

text \<open>
  The handlers of a list all return exactly if the first returns and the others return
  in the world it leaves; then the loop of \<^verbatim>\<open>dispatch_event\<close> calls them all, in the order
  of the list, each in the world that the one before has left.
\<close>

lemma world_after_Cons:
  "world_after D event (h # hs) w = world_after D event hs (snd (handle_event D h event w))"
  by (simp add: world_after_def)

lemma all_return_Nil: "all_return D event [] w"
  by (simp add: all_return_def)

lemma all_return_Cons:
  "all_return D event (h # hs) w \<longleftrightarrow>
     fst (handle_event D h event w) = None \<and>
     all_return D event hs (snd (handle_event D h event w))"
proof
  assume a: "all_return D event (h # hs) w"
  then have "fst (handle_event D (( h # hs) ! 0) event (world_after D event (take 0 (h # hs)) w)) = None"
    unfolding all_return_def by (metis length_greater_0_conv list.distinct(1))
  then have first: "fst (handle_event D h event w) = None" by (simp add: world_after_def)
  have "fst (handle_event D (hs ! i) event
          (world_after D event (take i hs) (snd (handle_event D h event w)))) = None"
    if "i < length hs" for i
  proof -
    from that have "Suc i < length (h # hs)" by simp
    with a have "fst (handle_event D ((h # hs) ! Suc i) event
        (world_after D event (take (Suc i) (h # hs)) w)) = None"
      unfolding all_return_def by blast
    then show ?thesis by (simp add: world_after_Cons)
  qed
  with first show "fst (handle_event D h event w) = None \<and>
     all_return D event hs (snd (handle_event D h event w))"
    by (simp add: all_return_def)
next
  assume a: "fst (handle_event D h event w) = None \<and>
     all_return D event hs (snd (handle_event D h event w))"
  show "all_return D event (h # hs) w"
    unfolding all_return_def
  proof (intro allI impI)
    fix i assume "i < length (h # hs)"
    then show "fst (handle_event D ((h # hs) ! i) event
        (world_after D event (take i (h # hs)) w)) = None"
      using a by (cases i) (auto simp: all_return_def world_after_Cons, simp add: world_after_def)
  qed
qed

lemma invoke_all_all_return:
  "all_return D event ds w \<Longrightarrow> invoke_all D event ds w = (None, world_after D event ds w, ds)"
proof (induction ds arbitrary: w)
  case Nil
  show ?case by (simp add: world_after_def)
next
  case (Cons d ds)
  obtain r w1 where h: "handle_event D d event w = (r, w1)" by (cases "handle_event D d event w")
  from Cons.prems h have r: "r = None" and rest: "all_return D event ds w1"
    by (simp_all add: all_return_Cons)
  from Cons.IH[OF rest] h r show ?case by (simp add: world_after_Cons)
qed

lemma invoke_all_None:
  "invoke_all D event ds w = (None, w', called) \<Longrightarrow> all_return D event ds w"
proof (induction ds arbitrary: w called)
  case Nil
  show ?case by (rule all_return_Nil)
next
  case (Cons d ds)
  obtain r w1 where h: "handle_event D d event w = (r, w1)" by (cases "handle_event D d event w")
  obtain r2 w2 c2 where i: "invoke_all D event ds w1 = (r2, w2, c2)"
    by (cases "invoke_all D event ds w1")
  from Cons.prems h i have r: "r = None" by (cases r) auto
  with Cons.prems h i have "r2 = None" by simp
  with i Cons.IH[of w1 c2] Cons.prems h r have "all_return D event ds w1" by simp
  with h r show ?case by (simp add: all_return_Cons)
qed

text \<open>
  C5. \<^verbatim>\<open>dispatch_event\<close> does nothing when the event's name has no entry in the registry.
  Otherwise the handlers it calls are an initial part of the list registered for the
  name, in the order of registration. When each handler returns in the world that the
  handlers before it have left, all are called, in this order, and the world is the one
  they leave one after the other; a dispatch that raises nothing is of this kind. When
  the handlers \<open>pre\<close> before \<open>h\<close> return and \<open>h\<close> faults in the world they leave, the calls
  are those of \<open>pre\<close> and of \<open>h\<close>: no handler after \<open>h\<close> is called for this event, the
  world is as \<open>h\<close> leaves it, and the fault is passed on.
\<close>

theorem dispatch_event_order:
  "(dispatchers self (name event) = None \<longrightarrow>
      dispatch_event D self event w = (None, w, [])) \<and>
   (dispatchers self (name event) = Some ds \<longrightarrow>
      take (length (snd (snd (dispatch_event D self event w)))) ds =
        snd (snd (dispatch_event D self event w)) \<and>
      (fst (dispatch_event D self event w) = None \<longrightarrow>
         dispatch_event D self event w = (None, world_after D event ds w, ds))) \<and>
   (dispatchers self (name event) = Some ds \<and> all_return D event ds w \<longrightarrow>
      dispatch_event D self event w = (None, world_after D event ds w, ds)) \<and>
   (dispatchers self (name event) = Some (pre @ h # post) \<and> all_return D event pre w \<and>
    handle_event D h event (world_after D event pre w) = (Some e, w2) \<longrightarrow>
      dispatch_event D self event w = (Some e, w2, pre @ [h]))"
proof (intro conjI impI)
  assume "dispatchers self (name event) = None"
  then show "dispatch_event D self event w = (None, w, [])"
    by (simp add: dispatch_event_def)
next
  assume ds: "dispatchers self (name event) = Some ds"
  obtain r w' called where i: "invoke_all D event ds w = (r, w', called)"
    by (cases "invoke_all D event ds w")
  from ds i have d: "dispatch_event D self event w = (r, w', called)"
    by (simp add: dispatch_event_def)
  from invoke_all_called[OF i] d
  show "take (length (snd (snd (dispatch_event D self event w)))) ds =
        snd (snd (dispatch_event D self event w))" by simp
  assume "fst (dispatch_event D self event w) = None"
  with d have "r = None" by simp
  with i have "all_return D event ds w" using invoke_all_None by fastforce
  from invoke_all_all_return[OF this] ds
  show "dispatch_event D self event w = (None, world_after D event ds w, ds)"
    by (simp add: dispatch_event_def)
next
  assume "dispatchers self (name event) = Some ds \<and> all_return D event ds w"
  then have ds: "dispatchers self (name event) = Some ds" and a: "all_return D event ds w"
    by simp_all
  from invoke_all_all_return[OF a] ds
  show "dispatch_event D self event w = (None, world_after D event ds w, ds)"
    by (simp add: dispatch_event_def)
next
  assume "dispatchers self (name event) = Some (pre @ h # post) \<and> all_return D event pre w \<and>
    handle_event D h event (world_after D event pre w) = (Some e, w2)"
  then have ds: "dispatchers self (name event) = Some (pre @ h # post)"
    and a: "all_return D event pre w"
    and f: "handle_event D h event (world_after D event pre w) = (Some e, w2)" by simp_all
  from invoke_all_append[OF invoke_all_all_return[OF a], of "h # post"] f
  have "invoke_all D event (pre @ h # post) w = (Some e, w2, pre @ [h])" by simp
  with ds show "dispatch_event D self event w = (Some e, w2, pre @ [h])"
    by (simp add: dispatch_event_def)
qed

text \<open>
  With handlers that leave their mark in the world: nothing is subscribed to \<^verbatim>\<open>Y\<close> and
  the world stays empty; the handlers 0 and 2 of \<^verbatim>\<open>workspace\<close> are called in this order
  and leave the marks 0, 2; of the handlers 0, 1, 2 of \<^verbatim>\<open>X\<close> the second faults, after
  the marks 0, 1, and handler 2 is not called.
\<close>

theorem dispatch_event_order_witness:
  "dispatch_event marking_plugins marking_engine \<lparr>name = ''Y'', data = ''d''\<rparr> [] = (None, [], []) \<and>
   dispatch_event marking_plugins marking_engine \<lparr>name = ''workspace'', data = ''2''\<rparr> [] =
     (None, [0, 2], [0, 2]) \<and>
   dispatch_event marking_plugins marking_engine \<lparr>name = ''X'', data = ''d''\<rparr> [] =
     (Some (Fault ''handler 1''), [0, 1], [0, 1])"
proof -
  let ?Y = "\<lparr>name = ''Y'', data = ''d''\<rparr>"
  let ?W = "\<lparr>name = ''workspace'', data = ''2''\<rparr>"
  let ?X = "\<lparr>name = ''X'', data = ''d''\<rparr>"
  have l: "dispatchers marking_engine (name ?Y) = None"
    "dispatchers marking_engine (name ?W) = Some [0, 2]"
    "dispatchers marking_engine (name ?X) = Some ([0] @ 1 # [2])"
    by (simp_all add: marking_engine_def)
  have a: "all_return marking_plugins ?W [0, 2] []" "all_return marking_plugins ?X [0] []"
    by (simp_all add: all_return_Cons all_return_Nil marking_plugins_def)
  have wa: "world_after marking_plugins ?W [0, 2] [] = [0, 2]"
    "world_after marking_plugins ?X [0] [] = [0]"
    by (simp_all add: world_after_def marking_plugins_def)
  have f: "handle_event marking_plugins 1 ?X [0] = (Some (Fault ''handler 1''), [0, 1])"
    by (simp add: marking_plugins_def)
  note t = dispatch_event_order[where D = marking_plugins and self = marking_engine and w = "[]"]
  from t[where event = ?Y and ds = "[]" and pre = "[]" and h = 0 and post = "[]"
      and e = Exception and ?w2.0 = "[]"]
  have "dispatchers marking_engine (name ?Y) = None \<longrightarrow>
      dispatch_event marking_plugins marking_engine ?Y [] = (None, [], [])"
    by (rule conjunct1)
  from this l(1) have y: "dispatch_event marking_plugins marking_engine ?Y [] = (None, [], [])"
    by (rule mp)
  from t[where event = ?W and ds = "[0, 2]" and pre = "[]" and h = 0 and post = "[]"
      and e = Exception and ?w2.0 = "[]"]
  have "dispatchers marking_engine (name ?W) = Some [0, 2] \<and>
        all_return marking_plugins ?W [0, 2] [] \<longrightarrow>
      dispatch_event marking_plugins marking_engine ?W [] =
        (None, world_after marking_plugins ?W [0, 2] [], [0, 2])"
    by (elim conjE)
  moreover from l(2) a(1) have "dispatchers marking_engine (name ?W) = Some [0, 2] \<and>
        all_return marking_plugins ?W [0, 2] []" by (rule conjI)
  ultimately have "dispatch_event marking_plugins marking_engine ?W [] =
        (None, world_after marking_plugins ?W [0, 2] [], [0, 2])"
    by (rule mp)
  then have w: "dispatch_event marking_plugins marking_engine ?W [] = (None, [0, 2], [0, 2])"
    unfolding wa .
  from t[where event = ?X and ds = "[]" and pre = "[0]" and h = 1 and post = "[2]"
      and e = "Fault ''handler 1''" and ?w2.0 = "[0, 1]"]
  have "dispatchers marking_engine (name ?X) = Some ([0] @ 1 # [2]) \<and>
        all_return marking_plugins ?X [0] [] \<and>
        handle_event marking_plugins 1 ?X (world_after marking_plugins ?X [0] []) =
          (Some (Fault ''handler 1''), [0, 1]) \<longrightarrow>
      dispatch_event marking_plugins marking_engine ?X [] =
        (Some (Fault ''handler 1''), [0, 1], [0] @ [1])"
    by (elim conjE)
  moreover have "dispatchers marking_engine (name ?X) = Some ([0] @ 1 # [2]) \<and>
        all_return marking_plugins ?X [0] [] \<and>
        handle_event marking_plugins 1 ?X (world_after marking_plugins ?X [0] []) =
          (Some (Fault ''handler 1''), [0, 1])"
  proof (intro conjI)
    show "dispatchers marking_engine (name ?X) = Some ([0] @ 1 # [2])" by (rule l(3))
    show "all_return marking_plugins ?X [0] []" by (rule a(2))
    show "handle_event marking_plugins 1 ?X (world_after marking_plugins ?X [0] []) =
          (Some (Fault ''handler 1''), [0, 1])" unfolding wa by (rule f)
  qed
  ultimately have "dispatch_event marking_plugins marking_engine ?X [] =
        (Some (Fault ''handler 1''), [0, 1], [0] @ [1])"
    by (rule mp)
  then have x: "dispatch_event marking_plugins marking_engine ?X [] =
      (Some (Fault ''handler 1''), [0, 1], [0, 1])" by simp
  from y w x show ?thesis by (intro conjI)
qed

lemma load_dispatcher_failure:
  "load_dispatcher D dispname self w = (Some e, self', w') \<Longrightarrow>
     dispatchers self' = dispatchers self \<and> config self' = config self"
  by (auto simp: load_dispatcher_def Let_def split: prod.splits sum.splits option.splits)

lemma load_dispatcher_config_missing:
  "load_plugin_as_module D dispname w = (Inr m, w1) \<Longrightarrow> config self dispname = None \<Longrightarrow>
     load_dispatcher D dispname self w =
       (Some Exception, self\<lparr>handlers := (handlers self)(mod_name m \<mapsto> mod_handler m)\<rparr>, w1)"
  by (simp add: load_dispatcher_def Let_def)

lemma load_each_append:
  "load_each D pre self w = (None, self0, w0) \<Longrightarrow>
     load_each D (pre @ rest) self w = load_each D rest self0 w0"
proof (induction pre arbitrary: self w)
  case Nil
  then show ?case by simp
next
  case (Cons n pre)
  obtain r s1 w1 where l: "load_dispatcher D n self w = (r, s1, w1)"
    by (cases "load_dispatcher D n self w")
  show ?case
  proof (cases "\<exists>e. r = Some e \<and> \<not> is_Exception e")
    case True
    with Cons.prems l show ?thesis by auto
  next
    case False
    with Cons.prems l have "load_each D pre s1 w1 = (None, self0, w0)"
      by (cases r) auto
    from Cons.IH[OF this] False l show ?thesis by (cases r) auto
  qed
qed

text \<open>
  C8. Let the names given to bulk loading be \<open>pre\<close>, then \<open>dispname\<close>, then \<open>post\<close>, and let
  \<^verbatim>\<open>load_dispatcher\<close> fail for \<open>dispname\<close> with an \<^verbatim>\<open>Exception\<close> after the names of \<open>pre\<close> have
  been worked through. Then the failed load has left the subscription lists as they were,
  and bulk loading goes on with the names of \<open>post\<close>. A missing configuration section is
  such a failure: \<^verbatim>\<open>load_dispatcher\<close> raises \<^verbatim>\<open>Exception\<close>.
\<close>

theorem bulk_load_skips_failure:
  "(config self ''general'' = Some general \<and> loaded general = Some (pre @ dispname # post) \<and>
    load_each D pre self w = (None, self0, w0) \<and>
    load_dispatcher D dispname self0 w0 = (Some e, self1, w1) \<and> is_Exception e \<longrightarrow>
      dispatchers self1 = dispatchers self0 \<and>
      load_all_dispatchers D self w = load_each D post self1 w1) \<and>
   (load_plugin_as_module D dispname w0 = (Inr m, w1) \<and> config self0 dispname = None \<longrightarrow>
      (\<exists>self1. load_dispatcher D dispname self0 w0 = (Some Exception, self1, w1)) \<and>
      is_Exception Exception)"
proof (intro conjI impI)
  assume a: "config self ''general'' = Some general \<and>
    loaded general = Some (pre @ dispname # post) \<and>
    load_each D pre self w = (None, self0, w0) \<and>
    load_dispatcher D dispname self0 w0 = (Some e, self1, w1) \<and> is_Exception e"
  then have l: "load_dispatcher D dispname self0 w0 = (Some e, self1, w1)"
    and p: "load_each D pre self w = (None, self0, w0)" by simp_all
  from load_dispatcher_failure[OF l] show "dispatchers self1 = dispatchers self0" by simp
  have "load_each D (pre @ dispname # post) self w = load_each D (dispname # post) self0 w0"
    using p by (rule load_each_append)
  also from a have "\<dots> = load_each D post self1 w1" by simp
  finally show "load_all_dispatchers D self w = load_each D post self1 w1"
    using a by (simp add: load_all_dispatchers_def)
next
  assume "load_plugin_as_module D dispname w0 = (Inr m, w1) \<and> config self0 dispname = None"
  then have "load_plugin_as_module D dispname w0 = (Inr m, w1)" "config self0 dispname = None"
    by simp_all
  from load_dispatcher_config_missing[OF this]
  show "\<exists>self1. load_dispatcher D dispname self0 w0 = (Some Exception, self1, w1)" by simp
next
  show "is_Exception Exception" by (simp add: is_Exception_def)
qed

lemma example_ghost:
  "load_dispatcher fresh_plugins ''ghost'' example_engine 0 =
     (Some Exception, example_engine\<lparr>handlers := [''ghost'' \<mapsto> 0]\<rparr>, 1)"
  by (simp add: load_dispatcher_def fresh_plugins_def example_engine_def example_config_def)

text \<open>
  The example configuration lists \<^verbatim>\<open>ghost\<close>, which has no section, before
  \<^verbatim>\<open>workspaceswap\<close>: the first is skipped, the second is loaded and subscribed.
\<close>

theorem bulk_load_skips_failure_witness:
  "load_dispatcher fresh_plugins ''ghost'' example_engine 0 =
     (Some Exception, example_engine\<lparr>handlers := [''ghost'' \<mapsto> 0]\<rparr>, 1) \<and>
   dispatchers (example_engine\<lparr>handlers := [''ghost'' \<mapsto> 0]\<rparr>) = dispatchers example_engine \<and>
   load_all_dispatchers fresh_plugins example_engine 0 =
     load_each fresh_plugins [''workspaceswap''] (example_engine\<lparr>handlers := [''ghost'' \<mapsto> 0]\<rparr>) 1 \<and>
   dispatchers engine_after_load ''workspace'' = Some [1] \<and>
   dispatchers engine_after_load ''custom'' = Some [1]"
proof -
  have c: "config example_engine ''general'' =
      Some \<lparr>loaded = Some [''ghost'', ''workspaceswap''], subscribes = None\<rparr>"
    by (simp add: example_engine_def example_config_def)
  have p: "load_plugin_as_module fresh_plugins ''ghost'' 0 =
      (Inr \<lparr>mod_name = ''ghost'', mod_handler = 0\<rparr>, 1)"
    by (simp add: fresh_plugins_def)
  have m: "config example_engine ''ghost'' = None"
    by (simp add: example_engine_def example_config_def)
  have all: "load_all_dispatchers fresh_plugins example_engine 0 =
      load_each fresh_plugins [''workspaceswap''] (example_engine\<lparr>handlers := [''ghost'' \<mapsto> 0]\<rparr>) 1"
    and same: "dispatchers (example_engine\<lparr>handlers := [''ghost'' \<mapsto> 0]\<rparr>) = dispatchers example_engine"
    using bulk_load_skips_failure[where self = example_engine and D = fresh_plugins and w = 0
        and general = "\<lparr>loaded = Some [''ghost'', ''workspaceswap''], subscribes = None\<rparr>"
        and pre = "[]" and dispname = "''ghost''" and post = "[''workspaceswap'']"
        and ?self0.0 = example_engine and ?w0.0 = 0 and e = Exception
        and ?self1.0 = "example_engine\<lparr>handlers := [''ghost'' \<mapsto> 0]\<rparr>" and ?w1.0 = 1]
      c example_ghost
    by (simp_all add: is_Exception_def)
  have "dispatchers engine_after_load ''workspace'' = Some [1]"
    "dispatchers engine_after_load ''custom'' = Some [1]"
    unfolding engine_after_load_def all
    by (simp_all add: load_dispatcher_def fresh_plugins_def example_engine_def example_config_def)
  with all same example_ghost show ?thesis by simp
qed

text \<open>
  C10. When the plugin loads and its configuration section is absent, \<^verbatim>\<open>load_dispatcher\<close>
  raises \<^verbatim>\<open>Exception\<close> and leaves the handler registry with the handler entered under the
  module's name: the registry is not what it was before the call, unless that very entry
  was there already.
\<close>

theorem failed_load_keeps_handler:
  "load_plugin_as_module D dispname w = (Inr m, w1) \<and> config self dispname = None \<longrightarrow>
     (\<exists>self'. load_dispatcher D dispname self w = (Some Exception, self', w1) \<and>
        handlers self' = (handlers self)(mod_name m \<mapsto> mod_handler m) \<and>
        handlers self' (mod_name m) = Some (mod_handler m) \<and>
        (handlers self (mod_name m) \<noteq> Some (mod_handler m) \<longrightarrow> handlers self' \<noteq> handlers self))"
proof
  assume a: "load_plugin_as_module D dispname w = (Inr m, w1) \<and> config self dispname = None"
  let ?self' = "self\<lparr>handlers := (handlers self)(mod_name m \<mapsto> mod_handler m)\<rparr>"
  from a have "load_plugin_as_module D dispname w = (Inr m, w1)" "config self dispname = None"
    by simp_all
  from load_dispatcher_config_missing[OF this]
  have "load_dispatcher D dispname self w = (Some Exception, ?self', w1)" .
  moreover have "handlers ?self' (mod_name m) = Some (mod_handler m)" by simp
  moreover have "handlers self (mod_name m) \<noteq> Some (mod_handler m) \<longrightarrow> handlers ?self' \<noteq> handlers self"
    by (metis calculation(2))
  ultimately show "\<exists>self'. load_dispatcher D dispname self w = (Some Exception, self', w1) \<and>
        handlers self' = (handlers self)(mod_name m \<mapsto> mod_handler m) \<and>
        handlers self' (mod_name m) = Some (mod_handler m) \<and>
        (handlers self (mod_name m) \<noteq> Some (mod_handler m) \<longrightarrow> handlers self' \<noteq> handlers self)"
    by (intro exI[of _ ?self']) simp
qed

text \<open>The plugin \<^verbatim>\<open>ghost\<close> of the example: not in the registry before, in it afterwards.\<close>

theorem failed_load_keeps_handler_witness:
  "handlers example_engine ''ghost'' = None \<and>
   (\<exists>self'. load_dispatcher fresh_plugins ''ghost'' example_engine 0 = (Some Exception, self', 1) \<and>
      handlers self' ''ghost'' = Some 0 \<and> handlers self' \<noteq> handlers example_engine)"
proof -
  have p: "load_plugin_as_module fresh_plugins ''ghost'' 0 =
      (Inr \<lparr>mod_name = ''ghost'', mod_handler = 0\<rparr>, 1)"
    by (simp add: fresh_plugins_def)
  have m: "config example_engine ''ghost'' = None" "handlers example_engine ''ghost'' = None"
    by (simp_all add: example_engine_def example_config_def)
  from failed_load_keeps_handler[where D = fresh_plugins and dispname = "''ghost''" and w = 0
      and m = "\<lparr>mod_name = ''ghost'', mod_handler = 0\<rparr>" and ?w1.0 = 1 and self = example_engine]
    p m
  show ?thesis by auto
qed




text \<open>
  One successful load of a handler object that is not subscribed yet gives a registry of
  this kind.
\<close>

lemma count_list_replicate_same: "count_list (replicate n x) x = n"
  by (induction n) auto

lemma subscribe_lookup:
  "subscribe h evs d e =
     (if e \<in> set evs
      then Some ((case d e of None \<Rightarrow> [] | Some hs \<Rightarrow> hs) @ replicate (count_list evs e) h)
      else d e)"
proof (induction evs arbitrary: d)
  case Nil
  show ?case by simp
next
  case (Cons ev rest)
  show ?case
    by (cases "d ev") (auto simp: Cons.IH count_list_0_iff replicate_append_same)
qed

lemma load_dispatcher_registers:
  assumes "load_dispatcher D dispname self w = (None, self', w')"
    and "load_plugin_as_module D dispname w = (Inr m, w1)"
    and "\<forall>e hs. dispatchers self e = Some hs \<longrightarrow> mod_handler m \<notin> set hs"
  shows "handlers self' (mod_name m) = Some (mod_handler m) \<and>
         (\<exists>sec evs. config self' (mod_name m) = Some sec \<and> subscribes sec = Some evs \<and>
            (\<forall>e \<in> set evs. \<exists>hs. dispatchers self' e = Some hs \<and>
                count_list hs (mod_handler m) = count_list evs e))"
proof -
  from assms(1,2) obtain sec evs where c: "config self (mod_name m) = Some sec"
    "subscribes sec = Some evs"
    and s: "self' = self\<lparr>handlers := (handlers self)(mod_name m \<mapsto> mod_handler m),
                         dispatchers := subscribe (mod_handler m) evs (dispatchers self)\<rparr>"
    by (auto simp: load_dispatcher_def Let_def split: option.splits prod.splits)
  have "\<forall>e \<in> set evs. \<exists>hs. dispatchers self' e = Some hs \<and>
                count_list hs (mod_handler m) = count_list evs e"
  proof
    fix e assume "e \<in> set evs"
    then show "\<exists>hs. dispatchers self' e = Some hs \<and> count_list hs (mod_handler m) = count_list evs e"
      using assms(3)
      by (cases "dispatchers self e")
        (auto simp: s subscribe_lookup count_list_0_iff count_list_replicate_same)
  qed
  with c s show ?thesis by auto
qed



section \<open>Properties of the workspace-swap tracker\<close>

lemma history_ok_init: "history_ok (Monitor_init monname monid wkspc)"
  by (simp add: history_ok_def Monitor_init_def)

lemma set_curr_wkspc_history_ok:
  assumes "history_ok m"
  shows "\<exists>m'. set_curr_wkspc w m = (None, m') \<and> history_ok m' \<and>
           curr_wkspc m' = Some w \<and> curr_wkspc m' \<noteq> prev_wkspc m' \<and>
           (curr_wkspc m = Some w \<longrightarrow> m' = m) \<and>
           (curr_wkspc m \<noteq> Some w \<longrightarrow> m' = m\<lparr>prev_wkspc := curr_wkspc m, curr_wkspc := Some w\<rparr>)"
proof (cases "curr_wkspc m = Some w")
  case True
  with assms have "prev_wkspc m \<noteq> Some w" by (auto simp: history_ok_def)
  with True assms show ?thesis by (auto simp: set_curr_wkspc_def Let_def)
next
  case False
  then show ?thesis by (auto simp: set_curr_wkspc_def Let_def history_ok_def)
qed

lemma assign_all_history_ok:
  "history_ok m \<Longrightarrow> \<exists>m'. assign_all ws m = (None, m') \<and> history_ok m'"
proof (induction ws arbitrary: m)
  case Nil
  then show ?case by simp
next
  case (Cons w ws)
  from set_curr_wkspc_history_ok[OF Cons.prems, of w]
  obtain m1 where "set_curr_wkspc w m = (None, m1)" "history_ok m1" by blast
  with Cons.IH[of m1] show ?case by simp
qed

text \<open>
  C3. Take a monitor record as its constructor builds it and any sequence of
  assignments to it. No assignment raises; after the sequence the current and the
  previous workspace differ whenever both are set; and one more assignment of \<open>w\<close>
  succeeds, keeps this, changes nothing when \<open>w\<close> is the current workspace, and otherwise
  makes \<open>w\<close> the current workspace and the old current workspace the previous one.
\<close>

theorem set_curr_wkspc_history:
  assumes "assign_all ws (Monitor_init monname monid wkspc0) = (r, m)"
  shows "r = None \<and>
         (\<forall>a b. curr_wkspc m = Some a \<and> prev_wkspc m = Some b \<longrightarrow> a \<noteq> b) \<and>
         (\<exists>m'. set_curr_wkspc w m = (None, m') \<and>
            (\<forall>a b. curr_wkspc m' = Some a \<and> prev_wkspc m' = Some b \<longrightarrow> a \<noteq> b) \<and>
            (curr_wkspc m = Some w \<longrightarrow> m' = m) \<and>
            (curr_wkspc m \<noteq> Some w \<longrightarrow>
               curr_wkspc m' = Some w \<and> prev_wkspc m' = curr_wkspc m \<and>
               mon_name m' = mon_name m \<and> mon_id m' = mon_id m))"
proof -
  from assign_all_history_ok[OF history_ok_init, of ws monname monid wkspc0] assms
  have r: "r = None" and ok: "history_ok m" by auto
  from set_curr_wkspc_history_ok[OF ok, of w]
  obtain m' where m': "set_curr_wkspc w m = (None, m')" "history_ok m'"
    "curr_wkspc m = Some w \<longrightarrow> m' = m"
    "curr_wkspc m \<noteq> Some w \<longrightarrow> m' = m\<lparr>prev_wkspc := curr_wkspc m, curr_wkspc := Some w\<rparr>"
    by blast
  have inv: "\<forall>a b. curr_wkspc x = Some a \<and> prev_wkspc x = Some b \<longrightarrow> a \<noteq> b"
    if "history_ok x" for x using that by (auto simp: history_ok_def)
  have ch: "curr_wkspc m \<noteq> Some w \<longrightarrow>
               curr_wkspc m' = Some w \<and> prev_wkspc m' = curr_wkspc m \<and>
               mon_name m' = mon_name m \<and> mon_id m' = mon_id m"
    using m'(4) by auto
  show ?thesis
  proof (intro conjI)
    show "r = None" by (rule r)
    show "\<forall>a b. curr_wkspc m = Some a \<and> prev_wkspc m = Some b \<longrightarrow> a \<noteq> b"
      by (rule inv[OF ok])
    show "\<exists>m'. set_curr_wkspc w m = (None, m') \<and>
            (\<forall>a b. curr_wkspc m' = Some a \<and> prev_wkspc m' = Some b \<longrightarrow> a \<noteq> b) \<and>
            (curr_wkspc m = Some w \<longrightarrow> m' = m) \<and>
            (curr_wkspc m \<noteq> Some w \<longrightarrow>
               curr_wkspc m' = Some w \<and> prev_wkspc m' = curr_wkspc m \<and>
               mon_name m' = mon_name m \<and> mon_id m' = mon_id m)"
      using m'(1) inv[OF m'(2)] m'(3) ch by (intro exI[of _ m'] conjI)
  qed
qed

text \<open>
  A monitor built with workspace 1, then assigned 2, 2 and 3: assigning 3 again changes
  nothing, assigning 4 moves 3 into the previous workspace.
\<close>

theorem set_curr_wkspc_history_witness:
  "assign_all [2, 2, 3] (Monitor_init ''DP-1'' 0 (Some 1)) =
     (None, \<lparr>mon_name = ''DP-1'', mon_id = 0, curr_wkspc = Some 3, prev_wkspc = Some 2\<rparr>) \<and>
   set_curr_wkspc 3 \<lparr>mon_name = ''DP-1'', mon_id = 0, curr_wkspc = Some 3, prev_wkspc = Some 2\<rparr> =
     (None, \<lparr>mon_name = ''DP-1'', mon_id = 0, curr_wkspc = Some 3, prev_wkspc = Some 2\<rparr>) \<and>
   set_curr_wkspc 4 \<lparr>mon_name = ''DP-1'', mon_id = 0, curr_wkspc = Some 3, prev_wkspc = Some 2\<rparr> =
     (None, \<lparr>mon_name = ''DP-1'', mon_id = 0, curr_wkspc = Some 4, prev_wkspc = Some 3\<rparr>)"
proof -
  let ?m = "\<lparr>mon_name = ''DP-1'', mon_id = 0, curr_wkspc = Some 3, prev_wkspc = Some 2\<rparr>"
  have a: "assign_all [2, 2, 3] (Monitor_init ''DP-1'' 0 (Some 1)) = (None, ?m)"
    by (simp add: set_curr_wkspc_def Monitor_init_def)
  from set_curr_wkspc_history[OF a, of 3]
  obtain m3 where m3: "set_curr_wkspc 3 ?m = (None, m3)" "m3 = ?m" by auto
  have m4: "set_curr_wkspc 4 ?m =
      (None, \<lparr>mon_name = ''DP-1'', mon_id = 0, curr_wkspc = Some 4, prev_wkspc = Some 3\<rparr>)"
    by (simp add: set_curr_wkspc_def)
  from a m3 m4 show ?thesis by simp
qed

text \<open>
  The final \<^verbatim>\<open>assert\<close> fails only on a record whose two workspaces are already equal,
  which the constructor and the assignments never produce.
\<close>

lemma set_curr_wkspc_assertion:
  "set_curr_wkspc 1 \<lparr>mon_name = ''DP-1'', mon_id = 0, curr_wkspc = Some 1, prev_wkspc = Some 1\<rparr> =
     (Some AssertionError,
      \<lparr>mon_name = ''DP-1'', mon_id = 0, curr_wkspc = Some 1, prev_wkspc = Some 1\<rparr>)"
  by (simp add: set_curr_wkspc_def)

lemma find_wkspc_mon_None:
  "find_wkspc_mon self wkspcid False = None \<longleftrightarrow>
     (\<forall>mon \<in> snd ` set (monitors self). curr_wkspc (heap self ! mon) \<noteq> Some wkspcid)"
  by (auto simp: find_wkspc_mon_def find_None_iff)

lemma find_wkspc_mon_Some:
  "find_wkspc_mon self wkspcid False = Some mon \<longleftrightarrow>
     (\<exists>i < length (monitors self). snd (monitors self ! i) = mon \<and>
        curr_wkspc (heap self ! mon) = Some wkspcid \<and>
        (\<forall>j < i. curr_wkspc (heap self ! snd (monitors self ! j)) \<noteq> Some wkspcid))"
  by (auto simp: find_wkspc_mon_def find_Some_iff)

text \<open>A toggle sends at most one command, however deep it recurses.\<close>

lemma do_workspace_change_cmds:
  "length (snd (snd (do_workspace_change depth gw wkspcid self))) \<le> 1"
proof (induction depth arbitrary: wkspcid self)
  case 0
  show ?case by simp
next
  case (Suc depth)
  show ?case
    using Suc.IH
    by (auto simp: Let_def focus_workspace_on_current_mon_def split: prod.splits option.splits)
qed

text \<open>
  The branches of one step of \<^verbatim>\<open>do_workspace_change\<close> whose resync succeeds, leaving the
  tracker \<open>self1\<close>, by the test of the code: the monitor found is the first entry of the
  table whose current workspace is the target, and the test holds when it carries the
  name of the object that \<^verbatim>\<open>self.currentmon\<close> refers to.
\<close>

lemma do_workspace_change_step:
  assumes "update_monitor_info gw self = (None, self1)"
  shows "(on_current_mon self1 (find_wkspc_mon self1 wkspcid False) \<and>
          prev_wkspc (heap self1 ! currentmon self1) = None \<longrightarrow>
            do_workspace_change (Suc depth) gw wkspcid self = (None, self1, [])) \<and>
         (on_current_mon self1 (find_wkspc_mon self1 wkspcid False) \<and>
          prev_wkspc (heap self1 ! currentmon self1) = Some new_wkspcid \<longrightarrow>
            do_workspace_change (Suc depth) gw wkspcid self =
              do_workspace_change depth gw new_wkspcid self1) \<and>
         (\<not> on_current_mon self1 (find_wkspc_mon self1 wkspcid False) \<longrightarrow>
            do_workspace_change (Suc depth) gw wkspcid self =
              (cmd_focus gw wkspcid, self1, [FocusWorkspaceOnCurrentMonitor wkspcid])) \<and>
         (on_current_mon self1 (find_wkspc_mon self1 wkspcid False) \<longleftrightarrow>
            (\<exists>i < length (monitors self1).
               curr_wkspc (heap self1 ! snd (monitors self1 ! i)) = Some wkspcid \<and>
               (\<forall>j < i. curr_wkspc (heap self1 ! snd (monitors self1 ! j)) \<noteq> Some wkspcid) \<and>
               mon_name (heap self1 ! snd (monitors self1 ! i)) =
                 mon_name (heap self1 ! currentmon self1)))"
proof (intro conjI impI)
  assume "on_current_mon self1 (find_wkspc_mon self1 wkspcid False) \<and>
          prev_wkspc (heap self1 ! currentmon self1) = None"
  with assms show "do_workspace_change (Suc depth) gw wkspcid self = (None, self1, [])"
    by simp
next
  assume "on_current_mon self1 (find_wkspc_mon self1 wkspcid False) \<and>
          prev_wkspc (heap self1 ! currentmon self1) = Some new_wkspcid"
  with assms show "do_workspace_change (Suc depth) gw wkspcid self =
              do_workspace_change depth gw new_wkspcid self1"
    by simp
next
  assume "\<not> on_current_mon self1 (find_wkspc_mon self1 wkspcid False)"
  with assms show "do_workspace_change (Suc depth) gw wkspcid self =
              (cmd_focus gw wkspcid, self1, [FocusWorkspaceOnCurrentMonitor wkspcid])"
    by (simp add: focus_workspace_on_current_mon_def)
next
  show "on_current_mon self1 (find_wkspc_mon self1 wkspcid False) \<longleftrightarrow>
            (\<exists>i < length (monitors self1).
               curr_wkspc (heap self1 ! snd (monitors self1 ! i)) = Some wkspcid \<and>
               (\<forall>j < i. curr_wkspc (heap self1 ! snd (monitors self1 ! j)) \<noteq> Some wkspcid) \<and>
               mon_name (heap self1 ! snd (monitors self1 ! i)) =
                 mon_name (heap self1 ! currentmon self1))"
  proof (cases "find_wkspc_mon self1 wkspcid False")
    case None
    then have "\<forall>mon \<in> snd ` set (monitors self1). curr_wkspc (heap self1 ! mon) \<noteq> Some wkspcid"
      by (simp add: find_wkspc_mon_None)
    then have "\<forall>i < length (monitors self1).
        curr_wkspc (heap self1 ! snd (monitors self1 ! i)) \<noteq> Some wkspcid"
      by (metis image_eqI nth_mem)
    with None show ?thesis by (auto simp: on_current_mon_def)
  next
    case (Some mon)
    then obtain i where i: "i < length (monitors self1)" "snd (monitors self1 ! i) = mon"
      "curr_wkspc (heap self1 ! mon) = Some wkspcid"
      "\<forall>j < i. curr_wkspc (heap self1 ! snd (monitors self1 ! j)) \<noteq> Some wkspcid"
      by (auto simp: find_wkspc_mon_Some)
    have uniq: "i' = i"
      if "i' < length (monitors self1)"
        "curr_wkspc (heap self1 ! snd (monitors self1 ! i')) = Some wkspcid"
        "\<forall>j < i'. curr_wkspc (heap self1 ! snd (monitors self1 ! j)) \<noteq> Some wkspcid" for i'
      using that i by (metis linorder_neqE_nat)
    show ?thesis
    proof
      assume "on_current_mon self1 (find_wkspc_mon self1 wkspcid False)"
      with Some have "mon_name (heap self1 ! mon) = mon_name (heap self1 ! currentmon self1)"
        by (simp add: on_current_mon_def)
      with i show "\<exists>i < length (monitors self1).
               curr_wkspc (heap self1 ! snd (monitors self1 ! i)) = Some wkspcid \<and>
               (\<forall>j < i. curr_wkspc (heap self1 ! snd (monitors self1 ! j)) \<noteq> Some wkspcid) \<and>
               mon_name (heap self1 ! snd (monitors self1 ! i)) =
                 mon_name (heap self1 ! currentmon self1)" by auto
    next
      assume "\<exists>i < length (monitors self1).
               curr_wkspc (heap self1 ! snd (monitors self1 ! i)) = Some wkspcid \<and>
               (\<forall>j < i. curr_wkspc (heap self1 ! snd (monitors self1 ! j)) \<noteq> Some wkspcid) \<and>
               mon_name (heap self1 ! snd (monitors self1 ! i)) =
                 mon_name (heap self1 ! currentmon self1)"
      then obtain i' where i': "i' < length (monitors self1)"
        "curr_wkspc (heap self1 ! snd (monitors self1 ! i')) = Some wkspcid"
        "\<forall>j < i'. curr_wkspc (heap self1 ! snd (monitors self1 ! j)) \<noteq> Some wkspcid"
        "mon_name (heap self1 ! snd (monitors self1 ! i')) = mon_name (heap self1 ! currentmon self1)"
        by blast
      from uniq[OF i'(1-3)] i'(4) i(2) Some
      show "on_current_mon self1 (find_wkspc_mon self1 wkspcid False)"
        by (simp add: on_current_mon_def)
    qed
  qed
qed

text \<open>
  The three scenarios of the specification: target 1 with no previous workspace, no
  action; target 3, shown on the other monitor, one focus request for 3; target 1 with
  the previous workspace 2, one focus request for 2.
\<close>

lemma scenario_synced:
  "update_monitor_info scenario_gw (scenario_tracker None) = (None, scenario_tracker None)"
  "update_monitor_info scenario_gw (scenario_tracker (Some 2)) = (None, scenario_tracker (Some 2))"
  by (simp_all add: update_monitor_info_def scenario_gw_def scenario_tracker_def
      set_curr_wkspc_at_def set_curr_wkspc_def)

lemma do_workspace_change_scenarios:
  "do_workspace_change (Suc 0) scenario_gw 1 (scenario_tracker None) =
     (None, scenario_tracker None, []) \<and>
   do_workspace_change (Suc 0) scenario_gw 3 (scenario_tracker None) =
     (None, scenario_tracker None, [FocusWorkspaceOnCurrentMonitor 3]) \<and>
   do_workspace_change (Suc (Suc 0)) scenario_gw 1 (scenario_tracker (Some 2)) =
     (None, scenario_tracker (Some 2), [FocusWorkspaceOnCurrentMonitor 2])"
proof -
  have f: "find_wkspc_mon (scenario_tracker p) 1 False = Some 0"
    "find_wkspc_mon (scenario_tracker p) 3 False = Some 1"
    "find_wkspc_mon (scenario_tracker p) 2 False = None" for p
    by (simp_all add: find_wkspc_mon_def scenario_tracker_def)
  have c: "on_current_mon (scenario_tracker p) (Some 0)"
    "\<not> on_current_mon (scenario_tracker p) (Some 1)"
    "\<not> on_current_mon (scenario_tracker p) None" for p
    by (simp_all add: on_current_mon_def scenario_tracker_def)
  have p: "prev_wkspc (heap (scenario_tracker p) ! currentmon (scenario_tracker p)) = p" for p
    by (simp add: scenario_tracker_def)
  have g: "cmd_focus scenario_gw n = None" for n by (simp add: scenario_gw_def)
  note s1 = do_workspace_change_step[OF scenario_synced(1)]
  note s2 = do_workspace_change_step[OF scenario_synced(2)]
  have "do_workspace_change (Suc 0) scenario_gw 1 (scenario_tracker None) =
     (None, scenario_tracker None, [])"
    using s1[where wkspcid = 1 and depth = 0] f c p by simp
  moreover have "do_workspace_change (Suc 0) scenario_gw 3 (scenario_tracker None) =
     (None, scenario_tracker None, [FocusWorkspaceOnCurrentMonitor 3])"
    using s1[where wkspcid = 3 and depth = 0] f c g by simp
  moreover have "do_workspace_change (Suc 0) scenario_gw 2 (scenario_tracker (Some 2)) =
     (None, scenario_tracker (Some 2), [FocusWorkspaceOnCurrentMonitor 2])"
    using s2[where wkspcid = 2 and depth = 0] f c g by simp
  moreover have "do_workspace_change (Suc (Suc 0)) scenario_gw 1 (scenario_tracker (Some 2)) =
     do_workspace_change (Suc 0) scenario_gw 2 (scenario_tracker (Some 2))"
    using s2[where wkspcid = 1 and new_wkspcid = 2 and depth = "Suc 0"] f c p by simp
  ultimately show ?thesis by simp
qed

text \<open>
  After a resync the object of \<^verbatim>\<open>self.currentmon\<close> carries the name, the id and the
  workspace that the gateway reports as active. So the monitor found passes the test of
  the step exactly when its name is that of the monitor reported as active.
\<close>

lemma set_curr_wkspc_at_keeps:
  "set_curr_wkspc_at r wkspc self = (res, self') \<Longrightarrow>
     currentmon self' = currentmon self \<and> length (heap self') = length (heap self) \<and>
     monitors self' = monitors self"
  by (auto simp: set_curr_wkspc_at_def split: prod.splits)

lemma sync_monitors_keeps:
  "sync_monitors moninfo self = (res, self') \<Longrightarrow>
     currentmon self' = currentmon self \<and> length (heap self) \<le> length (heap self')"
proof (induction moninfo arbitrary: self)
  case Nil
  then show ?case by simp
next
  case (Cons mon rest)
  show ?case
  proof (cases "map_of (monitors self) (mi_name mon)")
    case None
    with Cons.prems have "sync_monitors rest (new_monitor mon self) = (res, self')" by simp
    from Cons.IH[OF this] show ?thesis by (simp add: new_monitor_def)
  next
    case (Some monitor)
    obtain r1 s1 where a: "set_curr_wkspc_at monitor (mi_activeWorkspace_id mon) self = (r1, s1)"
      by (cases "set_curr_wkspc_at monitor (mi_activeWorkspace_id mon) self")
    note k = set_curr_wkspc_at_keeps[OF a]
    show ?thesis
    proof (cases r1)
      case None
      with Cons.prems Some a have "sync_monitors rest s1 = (res, self')" by simp
      from Cons.IH[OF this] k show ?thesis by simp
    next
      case (Some e)
      with Cons.prems \<open>map_of (monitors self) (mi_name mon) = Some monitor\<close> a k
      show ?thesis by simp
    qed
  qed
qed

lemma update_monitor_info_currentmon:
  assumes "update_monitor_info gw self = (None, self1)"
    and "currentmon self < length (heap self)"
  shows "\<exists>activews. cmd_activeworkspace gw = Inr activews \<and>
           mon_name (heap self1 ! currentmon self1) = aw_monitor activews \<and>
           mon_id (heap self1 ! currentmon self1) = aw_monitorID activews \<and>
           curr_wkspc (heap self1 ! currentmon self1) = Some (aw_id activews)"
proof -
  from assms(1) obtain moninfo s1 activews where
    m: "cmd_monitors gw = Inr moninfo" and s: "sync_monitors moninfo self = (None, s1)"
    and a: "cmd_activeworkspace gw = Inr activews"
    and u: "set_curr_wkspc_at (currentmon s1) (aw_id activews)
             (s1\<lparr>heap := (heap s1)[currentmon s1 :=
                 (heap s1 ! currentmon s1)\<lparr>mon_name := aw_monitor activews,
                                            mon_id := aw_monitorID activews\<rparr>]\<rparr>) = (None, self1)"
    by (auto simp: update_monitor_info_def Let_def split: sum.splits prod.splits option.splits)
  from sync_monitors_keeps[OF s] assms(2) have r: "currentmon s1 < length (heap s1)" by simp
  from u r have "mon_name (heap self1 ! currentmon self1) = aw_monitor activews"
    "mon_id (heap self1 ! currentmon self1) = aw_monitorID activews"
    "curr_wkspc (heap self1 ! currentmon self1) = Some (aw_id activews)"
    by (auto simp: set_curr_wkspc_at_def set_curr_wkspc_def Let_def split: if_splits)
  with a show ?thesis by simp
qed

lemma on_current_mon_after_resync:
  assumes "update_monitor_info gw self = (None, self1)"
    and "currentmon self < length (heap self)"
    and "cmd_activeworkspace gw = Inr activews"
  shows "on_current_mon self1 (find_wkspc_mon self1 wkspcid False) \<longleftrightarrow>
           (\<exists>mon. find_wkspc_mon self1 wkspcid False = Some mon \<and>
              mon_name (heap self1 ! mon) = aw_monitor activews)"
  using update_monitor_info_currentmon[OF assms(1,2)] assms(3)
  by (auto simp: on_current_mon_def split: option.splits)

text \<open>
  \<^verbatim>\<open>load_config\<close> builds \<^verbatim>\<open>self.currentmon\<close> as an object of its own, whatever the gateway
  answers: it is never an entry of the table, while the \<^verbatim>\<open>focusedmon\<close> branch of
  \<^verbatim>\<open>handle_event\<close> makes \<^verbatim>\<open>self.currentmon\<close> an entry of the table.
\<close>

lemma load_config_start:
  "WorkspaceSwap_load_config (Some Some) gw_start = Inr tracker_start"
  by (simp add: WorkspaceSwap_load_config_def gw_start_def tracker_start_def new_monitor_def
      Monitor_init_def)

lemma dict_set_values: "(k', r) \<in> set (dict_set k v d) \<Longrightarrow> r = v \<or> (k', r) \<in> set d"
  by (induction d) (auto split: if_splits)

lemma detached_new_monitor: "detached self \<Longrightarrow> detached (new_monitor mon self)"
proof -
  assume d: "detached self"
  have "0 < r \<and> r < Suc (length (heap self))"
    if "(k, r) \<in> set (dict_set (mi_name mon) (length (heap self)) (monitors self))" for k r
  proof -
    from dict_set_values[OF that]
    consider "r = length (heap self)" | "(k, r) \<in> set (monitors self)" by blast
    then show ?thesis
    proof cases
      case 1
      with d show ?thesis by (simp add: detached_def)
    next
      case 2
      with d have "0 < r \<and> r < length (heap self)" by (auto simp: detached_def)
      then show ?thesis by simp
    qed
  qed
  with d show ?thesis by (auto simp: detached_def new_monitor_def)
qed

lemma detached_fold: "detached self \<Longrightarrow> detached (fold new_monitor ms self)"
  by (induction ms arbitrary: self) (simp_all add: detached_new_monitor)

lemma load_config_currentmon_detached:
  assumes "WorkspaceSwap_load_config data_regex gw = Inr self"
  shows "detached self"
proof -
  have "detached (fold new_monitor ms \<lparr>heap = [m], monitors = [], currentmon = 0, triggerdata = f\<rparr>)"
    for ms m f
    by (rule detached_fold) (simp add: detached_def)
  with assms show ?thesis
    by (auto simp: WorkspaceSwap_load_config_def split: option.splits sum.splits)
qed

lemma detached_not_entry:
  "detached self \<Longrightarrow> currentmon self \<notin> snd ` set (monitors self) \<and> refs_ok self"
  by (fastforce simp: detached_def refs_ok_def)

text \<open>
  C7 does not hold of the code. After \<^verbatim>\<open>load_config\<close> at the start, \<^verbatim>\<open>self.currentmon\<close> is
  object 0 and the table entry of the focused monitor \<^verbatim>\<open>A\<close> is object 1. The event
  \<^verbatim>\<open>workspace>>5\<close> assigns workspace 5 to object 0 only: the table entry of \<^verbatim>\<open>A\<close> keeps the
  current workspace 2 and no previous one.
\<close>

theorem workspace_event_misses_table_entry:
  "WorkspaceSwap_load_config (Some Some) gw_start = Inr tracker_start \<and>
   currentmon tracker_start = 0 \<and>
   map_of (monitors tracker_start) ''A'' = Some 1 \<and>
   WorkspaceSwap_handle_event small_int depth gw_start \<lparr>name = ''workspace'', data = ''5''\<rparr>
       tracker_start =
     (None,
      tracker_start\<lparr>heap :=
        [\<lparr>mon_name = ''A'', mon_id = 0, curr_wkspc = Some 5, prev_wkspc = Some 2\<rparr>,
         \<lparr>mon_name = ''A'', mon_id = 0, curr_wkspc = Some 2, prev_wkspc = None\<rparr>,
         \<lparr>mon_name = ''B'', mon_id = 1, curr_wkspc = Some 3, prev_wkspc = None\<rparr>]\<rparr>,
      [])"
  by (simp add: load_config_start)
    (simp add: WorkspaceSwap_handle_event_def tracker_start_def small_int_def
      set_curr_wkspc_at_def set_curr_wkspc_def)

text \<open>
  What the \<^verbatim>\<open>workspace\<close> branch does in every state: it assigns the workspace to the object
  that \<^verbatim>\<open>self.currentmon\<close> refers to, and to nothing else.
\<close>

lemma workspace_event_assigns_to_currentmon:
  assumes "name event = ''workspace''" and "to_int (data event) = Some wkspcid"
  shows "WorkspaceSwap_handle_event to_int depth gw event self =
           (fst (set_curr_wkspc wkspcid (heap self ! currentmon self)),
            self\<lparr>heap := (heap self)
              [currentmon self := snd (set_curr_wkspc wkspcid (heap self ! currentmon self))]\<rparr>,
            [])"
  using assms
  by (simp add: WorkspaceSwap_handle_event_def set_curr_wkspc_at_def split: prod.splits)

text \<open>
  The tracker after the events of \<open>drift_events\<close> agrees with the gateway: the resync
  changes nothing. The entry of \<^verbatim>\<open>B\<close> carries the name \<^verbatim>\<open>A\<close>, which
  \<^verbatim>\<open>update_monitor_info\<close> wrote into it while it was \<^verbatim>\<open>self.currentmon\<close>.
\<close>

lemma drifted_synced:
  "update_monitor_info gw_later tracker_drifted = (None, tracker_drifted)"
  by (simp add: update_monitor_info_def gw_later_def tracker_drifted_def
      set_curr_wkspc_at_def set_curr_wkspc_def)

lemma drifted_previous_found:
  "on_current_mon tracker_drifted (find_wkspc_mon tracker_drifted 2 False)"
  "on_current_mon tracker_drifted (find_wkspc_mon tracker_drifted 5 False)"
  "prev_wkspc (heap tracker_drifted ! currentmon tracker_drifted) = Some 2"
  by (simp_all add: on_current_mon_def find_wkspc_mon_def tracker_drifted_def)

lemma drifted_previous_loops:
  "do_workspace_change depth gw_later 2 tracker_drifted = (Some RecursionError, tracker_drifted, [])"
  by (induction depth) (simp_all add: drifted_synced drifted_previous_found)

lemma drift_events_run:
  "handle_events small_int (Suc (Suc depth)) drift_events tracker_start =
     (None, tracker_drifted, [FocusWorkspaceOnCurrentMonitor 5])"
  by (simp add: drift_events_def WorkspaceSwap_handle_event_def parse_focusedmon_data_def
      small_int_def tracker_start_def tracker_drifted_def gw_start_def gw_later_def
      update_monitor_info_def set_curr_wkspc_at_def set_curr_wkspc_def find_wkspc_mon_def
      on_current_mon_def focus_workspace_on_current_mon_def)

text \<open>
  C2 does not hold of the code. The tracker \<open>tracker_drifted\<close> is reached from
  \<^verbatim>\<open>load_config\<close> by the events of \<open>drift_events\<close>. Its active monitor shows workspace 5
  and has the previous workspace 2: a chain of length one without a cycle. Asked for
  workspace 5, the toggle retargets to 2, finds 2 on the entry of \<^verbatim>\<open>B\<close>, which carries the
  active monitor's name, retargets to 2 again, and so on: whatever depth of recursion
  the interpreter allows, the toggle uses it up and ends in \<^verbatim>\<open>RecursionError\<close>.
\<close>

theorem toggle_exhausts_recursion:
  "WorkspaceSwap_load_config (Some Some) gw_start = Inr tracker_start \<and>
   handle_events small_int (Suc (Suc depth0)) drift_events tracker_start =
     (None, tracker_drifted, [FocusWorkspaceOnCurrentMonitor 5]) \<and>
   curr_wkspc (heap tracker_drifted ! currentmon tracker_drifted) = Some 5 \<and>
   prev_wkspc (heap tracker_drifted ! currentmon tracker_drifted) = Some 2 \<and>
   do_workspace_change depth gw_later 5 tracker_drifted =
     (Some RecursionError, tracker_drifted, []) \<and>
   WorkspaceSwap_handle_event small_int depth gw_later \<lparr>name = ''custom'', data = ''5''\<rparr>
       tracker_drifted =
     (Some RecursionError, tracker_drifted, [])"
proof -
  have five: "do_workspace_change depth gw_later 5 tracker_drifted =
     (Some RecursionError, tracker_drifted, [])"
  proof (cases depth)
    case 0
    then show ?thesis by simp
  next
    case (Suc d)
    then show ?thesis
      by (simp add: drifted_synced drifted_previous_found drifted_previous_loops)
  qed
  have ev: "WorkspaceSwap_handle_event small_int depth gw_later \<lparr>name = ''custom'', data = ''5''\<rparr>
       tracker_drifted = do_workspace_change depth gw_later 5 tracker_drifted"
    by (simp add: WorkspaceSwap_handle_event_def small_int_def) (simp add: tracker_drifted_def)
  have "curr_wkspc (heap tracker_drifted ! currentmon tracker_drifted) = Some 5"
    by (simp add: tracker_drifted_def)
  with five ev load_config_start drift_events_run drifted_previous_found(3)
  show ?thesis by simp
qed

text \<open>
  What holds instead: when the tracker agrees with the gateway after the resync, and
  every table entry that carries the active monitor's name shows the active monitor's
  current workspace, the toggle retargets at most once, so that a depth of two is as
  good as any greater one. The tracker \<open>tracker_drifted\<close> breaks the second condition.
\<close>

lemma find_wkspc_mon_entry:
  "find_wkspc_mon self wkspcid False = Some mon \<Longrightarrow>
     mon \<in> snd ` set (monitors self) \<and> curr_wkspc (heap self ! mon) = Some wkspcid"
  by (auto simp: find_wkspc_mon_def find_Some_iff)

lemma toggle_one_recursion:
  assumes sync: "update_monitor_info gw self = (None, self1)"
    and stable: "update_monitor_info gw self1 = (None, self1)"
    and ok: "history_ok (heap self1 ! currentmon self1)"
    and names: "\<forall>mon \<in> snd ` set (monitors self1).
        mon_name (heap self1 ! mon) = mon_name (heap self1 ! currentmon self1) \<longrightarrow>
        curr_wkspc (heap self1 ! mon) = curr_wkspc (heap self1 ! currentmon self1)"
  shows "do_workspace_change (Suc (Suc depth)) gw wkspcid self =
         do_workspace_change (Suc (Suc 0)) gw wkspcid self"
proof -
  have second: "do_workspace_change (Suc d) gw p self1 =
      (cmd_focus gw p, self1, [FocusWorkspaceOnCurrentMonitor p])"
    if p: "prev_wkspc (heap self1 ! currentmon self1) = Some p" for d p
  proof -
    have "\<not> on_current_mon self1 (find_wkspc_mon self1 p False)"
    proof
      assume a: "on_current_mon self1 (find_wkspc_mon self1 p False)"
      then obtain mon where f: "find_wkspc_mon self1 p False = Some mon"
        and n: "mon_name (heap self1 ! mon) = mon_name (heap self1 ! currentmon self1)"
        by (auto simp: on_current_mon_def split: option.splits)
      from find_wkspc_mon_entry[OF f] names n
      have "curr_wkspc (heap self1 ! currentmon self1) = Some p" by auto
      with p ok show False by (simp add: history_ok_def)
    qed
    with stable show ?thesis by (simp add: focus_workspace_on_current_mon_def)
  qed
  show ?thesis
  proof (cases "on_current_mon self1 (find_wkspc_mon self1 wkspcid False)")
    case False
    with sync show ?thesis by simp
  next
    case True
    show ?thesis
    proof (cases "prev_wkspc (heap self1 ! currentmon self1)")
      case None
      with True sync show ?thesis by simp
    next
      case (Some p)
      with True sync second[OF Some, of depth] second[OF Some, of 0] show ?thesis by simp
    qed
  qed
qed

text \<open>
  So it is in the third scenario of the specification, for every depth from two on.
\<close>

lemma toggle_one_recursion_scenario:
  "do_workspace_change (Suc (Suc depth)) scenario_gw 1 (scenario_tracker (Some 2)) =
     (None, scenario_tracker (Some 2), [FocusWorkspaceOnCurrentMonitor 2])"
proof -
  have "history_ok (heap (scenario_tracker (Some 2)) ! currentmon (scenario_tracker (Some 2)))"
    by (simp add: scenario_tracker_def history_ok_def)
  moreover have "\<forall>mon \<in> snd ` set (monitors (scenario_tracker (Some 2))).
      mon_name (heap (scenario_tracker (Some 2)) ! mon) =
        mon_name (heap (scenario_tracker (Some 2)) ! currentmon (scenario_tracker (Some 2))) \<longrightarrow>
      curr_wkspc (heap (scenario_tracker (Some 2)) ! mon) =
        curr_wkspc (heap (scenario_tracker (Some 2)) ! currentmon (scenario_tracker (Some 2)))"
    by (simp add: scenario_tracker_def)
  ultimately have "do_workspace_change (Suc (Suc depth)) scenario_gw 1 (scenario_tracker (Some 2)) =
      do_workspace_change (Suc (Suc 0)) scenario_gw 1 (scenario_tracker (Some 2))"
    using scenario_synced(2) by (intro toggle_one_recursion)
  also have "\<dots> = (None, scenario_tracker (Some 2), [FocusWorkspaceOnCurrentMonitor 2])"
    by (simp add: update_monitor_info_def scenario_gw_def scenario_tracker_def
        set_curr_wkspc_at_def set_curr_wkspc_def find_wkspc_mon_def on_current_mon_def
        focus_workspace_on_current_mon_def)
  finally show ?thesis .
qed

text \<open>
  C4 does not hold of the code. In \<open>tracker_drifted\<close>, which is reached from \<^verbatim>\<open>load_config\<close>
  by the events of \<open>drift_events\<close> and agrees with the gateway, the only table entry that
  shows workspace 2 is the entry of \<^verbatim>\<open>B\<close>, while the active monitor is \<^verbatim>\<open>A\<close>: the gateway
  reports \<^verbatim>\<open>A\<close> as active and \<^verbatim>\<open>self.currentmon\<close> is the entry of \<^verbatim>\<open>A\<close>. For the target 2
  the step should send the focus request and stop. The entry of \<^verbatim>\<open>B\<close> carries the name
  \<^verbatim>\<open>A\<close>, so the step takes it for the active monitor, retargets to the previous
  workspace of \<^verbatim>\<open>A\<close> and sends nothing; the event \<^verbatim>\<open>custom>>2\<close> ends in \<^verbatim>\<open>RecursionError\<close>.
\<close>

theorem toggle_step_takes_other_monitor_for_active:
  "WorkspaceSwap_load_config (Some Some) gw_start = Inr tracker_start \<and>
   handle_events small_int (Suc (Suc depth0)) drift_events tracker_start =
     (None, tracker_drifted, [FocusWorkspaceOnCurrentMonitor 5]) \<and>
   update_monitor_info gw_later tracker_drifted = (None, tracker_drifted) \<and>
   cmd_activeworkspace gw_later = Inr \<lparr>aw_monitor = ''A'', aw_monitorID = 0, aw_id = 5\<rparr> \<and>
   map_of (monitors tracker_drifted) ''A'' = Some (currentmon tracker_drifted) \<and>
   filter (\<lambda>(k, mon). curr_wkspc (heap tracker_drifted ! mon) = Some 2) (monitors tracker_drifted) =
     [(''B'', 2)] \<and>
   do_workspace_change (Suc depth) gw_later 2 tracker_drifted =
     do_workspace_change depth gw_later 2 tracker_drifted \<and>
   do_workspace_change (Suc depth) gw_later 2 tracker_drifted =
     (Some RecursionError, tracker_drifted, []) \<and>
   WorkspaceSwap_handle_event small_int (Suc depth) gw_later \<lparr>name = ''custom'', data = ''2''\<rparr>
       tracker_drifted =
     (Some RecursionError, tracker_drifted, [])"
proof -
  have "map_of (monitors tracker_drifted) ''A'' = Some (currentmon tracker_drifted)"
    "filter (\<lambda>(k, mon). curr_wkspc (heap tracker_drifted ! mon) = Some 2)
       (monitors tracker_drifted) = [(''B'', 2)]"
    by (simp_all add: tracker_drifted_def)
  moreover have "cmd_activeworkspace gw_later =
      Inr \<lparr>aw_monitor = ''A'', aw_monitorID = 0, aw_id = 5\<rparr>"
    by (simp add: gw_later_def)
  moreover have "do_workspace_change (Suc depth) gw_later 2 tracker_drifted =
     do_workspace_change depth gw_later 2 tracker_drifted"
    by (simp add: drifted_synced drifted_previous_found)
  moreover have "WorkspaceSwap_handle_event small_int (Suc depth) gw_later
       \<lparr>name = ''custom'', data = ''2''\<rparr> tracker_drifted =
     do_workspace_change (Suc depth) gw_later 2 tracker_drifted"
    by (simp add: WorkspaceSwap_handle_event_def small_int_def) (simp add: tracker_drifted_def)
  ultimately show ?thesis
    using drifted_synced drifted_previous_loops[of "Suc depth"] load_config_start
      drift_events_run[of depth0] by simp
qed

text \<open>
  The step goes wrong the other way round as well. Entries are never taken out of the
  table, so the entry of the unplugged monitor \<^verbatim>\<open>C\<close> keeps workspace 3, which \<^verbatim>\<open>A\<close> now
  shows, and it stands before the entry of \<^verbatim>\<open>A\<close>. Asked for workspace 3, which the active
  monitor shows, the step finds the entry of \<^verbatim>\<open>C\<close> and sends the focus request for 3
  where it should retarget to the previous workspace 1.
\<close>

lemma stale_entry_hides_active_monitor:
  "WorkspaceSwap_load_config (Some Some) gw_docked = Inr tracker_docked \<and>
   handle_events small_int depth0 undock_events tracker_docked = (None, tracker_undocked, []) \<and>
   curr_wkspc (heap tracker_undocked ! currentmon tracker_undocked) = Some 3 \<and>
   prev_wkspc (heap tracker_undocked ! currentmon tracker_undocked) = Some 1 \<and>
   do_workspace_change (Suc depth) gw_undocked 3 tracker_undocked =
     (None, tracker_undocked, [FocusWorkspaceOnCurrentMonitor 3])"
proof -
  have "WorkspaceSwap_load_config (Some Some) gw_docked = Inr tracker_docked"
    by (simp add: WorkspaceSwap_load_config_def gw_docked_def tracker_docked_def new_monitor_def
        Monitor_init_def)
  moreover have "handle_events small_int depth0 undock_events tracker_docked =
      (None, tracker_undocked, [])"
    by (simp add: undock_events_def WorkspaceSwap_handle_event_def parse_focusedmon_data_def
        parse_moveworkspace_data_def small_int_def tracker_docked_def tracker_undocked_def
        set_curr_wkspc_at_def set_curr_wkspc_def)
  moreover have "do_workspace_change (Suc depth) gw_undocked 3 tracker_undocked =
     (None, tracker_undocked, [FocusWorkspaceOnCurrentMonitor 3])"
    by (simp add: gw_undocked_def tracker_undocked_def update_monitor_info_def
        set_curr_wkspc_at_def set_curr_wkspc_def find_wkspc_mon_def on_current_mon_def
        focus_workspace_on_current_mon_def)
  moreover have "curr_wkspc (heap tracker_undocked ! currentmon tracker_undocked) = Some 3"
    "prev_wkspc (heap tracker_undocked ! currentmon tracker_undocked) = Some 1"
    by (simp_all add: tracker_undocked_def)
  ultimately show ?thesis by simp
qed

end
